theory Spec2Isabelle
  imports Complex_Main "HOL-Library.AList"
begin

section \<open>Values, metadata records and errors\<close>

text \<open>
  The codec of \<^verbatim>\<open>pysat/utils/io.py\<close> works on Python dictionaries of metadata.
  A metadata value is a Python object (None, a boolean, an integer, a float, a string),
  a numpy scalar (\<^verbatim>\<open>np.bool_\<close>, an integer or a float of some width, \<^verbatim>\<open>np.str_\<close>: what the
  netCDF4 library returns for a numeric attribute and what iterating over a numpy array
  yields), a one-dimensional numpy array, or, under the label \<^verbatim>\<open>meta\<close> of a higher-order
  variable, a nested metadata set. The class of a value matters to \<^verbatim>\<open>isinstance\<close>:
  a Python float is no \<^verbatim>\<open>np.float64\<close>, while \<^verbatim>\<open>np.float64\<close> derives from \<^verbatim>\<open>float\<close> and
  \<^verbatim>\<open>np.str_\<close> from \<^verbatim>\<open>str\<close>. Floats are idealised: NaN, the two infinities and the finite
  values (as rationals); neither rounding nor the range of an integer width is modelled.

  A numpy array holds elements of one element type; a sequence of values of different
  kinds is no value of the model. Indexing and iterating yield numpy scalars of the
  element type (\<^verbatim>\<open>elements\<close>).

  A Python dictionary keeps its keys in insertion order, \<^verbatim>\<open>d[k] = v\<close> overwrites in
  place or appends, and two dictionaries are equal when they map the same keys to equal
  values. A dictionary is therefore an association list with \<^const>\<open>AList.update\<close> and
  \<^const>\<open>AList.delete\<close>, read through \<^const>\<open>map_of\<close>.
\<close>

datatype pyfloat = NaN | PInf | NInf | Fin rat

datatype np_int = Int8 | Int16 | Int32 | Int64 | UInt8 | UInt16 | UInt32 | UInt64

datatype np_float = Float16 | Float32 | Float64

datatype scalar =
    SNone | SBool bool | SInt int | SFloat pyfloat | SStr string
  | NBool bool | NInt np_int int | NFloat np_float pyfloat | NStr string

datatype ndarray =
    BoolArr "bool list"
  | IntArr np_int "int list"
  | FloatArr np_float "pyfloat list"
  | StrArr "string list"

fun elements :: "ndarray \<Rightarrow> scalar list" where
  "elements (BoolArr bs) = map NBool bs"
| "elements (IntArr t ns) = map (NInt t) ns"
| "elements (FloatArr t fs) = map (NFloat t) fs"
| "elements (StrArr ss) = map NStr ss"

datatype pyval =
    Sc scalar
  | Arr ndarray
  | Meta "(string \<times> (string \<times> pyval) list) list"

type_synonym meta_record = "(string \<times> pyval) list"

type_synonym mdict = "(string \<times> meta_record) list"

datatype pyerror =
    TypeError | ValueError | KeyError | AttributeError | OverflowError | NameError
  | IndexError | RuntimeError

text \<open>\<^verbatim>\<open>"{:d}".format(i)\<close>: the decimal numeral of a natural number.\<close>

definition digit_char :: "nat \<Rightarrow> char" where
  "digit_char d = ''0123456789'' ! d"

fun string_of_nat :: "nat \<Rightarrow> string" where
  "string_of_nat n =
     (if n < 10 then [digit_char n] else string_of_nat (n div 10) @ [digit_char (n mod 10)])"

declare string_of_nat.simps [simp del]

section \<open>The array expander\<close>

text \<open>
  \<^verbatim>\<open>meta_array_expander\<close> builds, for every variable, a fresh dictionary
  \<^verbatim>\<open>loop_dict\<close>. A value whose \<^verbatim>\<open>np.asarray(...).shape\<close> is \<^verbatim>\<open>()\<close> (a Python object, a
  numpy scalar, a dictionary) is stored as it is, an array of shape \<^verbatim>\<open>(1,)\<close> is stored as
  its only element, and any other array is enumerated: element \<^verbatim>\<open>i\<close> is stored under the
  label followed by the decimal \<^verbatim>\<open>i\<close>. The function \<^verbatim>\<open>expand_value\<close> lists the assignments
  to \<^verbatim>\<open>loop_dict\<close> that one label causes, \<^verbatim>\<open>assign_all\<close> performs them in order.
\<close>

fun enumerate_from :: "nat \<Rightarrow> 'a list \<Rightarrow> (nat \<times> 'a) list" where
  "enumerate_from i [] = []"
| "enumerate_from i (x # xs) = (i, x) # enumerate_from (Suc i) xs"

fun expand_value :: "string \<Rightarrow> pyval \<Rightarrow> (string \<times> pyval) list" where
  "expand_value meta_key (Sc s) = [(meta_key, Sc s)]"
| "expand_value meta_key (Meta m) = [(meta_key, Meta m)]"
| "expand_value meta_key (Arr tst_array) =
     (case elements tst_array of
        [x] \<Rightarrow> [(meta_key, Sc x)]
      | xs \<Rightarrow> map (\<lambda>(i, val). (meta_key @ string_of_nat i, Sc val)) (enumerate_from 0 xs))"

definition assign_all :: "(string \<times> pyval) list \<Rightarrow> meta_record \<Rightarrow> meta_record" where
  "assign_all kvs loop_dict = fold (\<lambda>(k, v). AList.update k v) kvs loop_dict"

text \<open>
  The label \<^verbatim>\<open>meta\<close> is treated apart: the expander is applied to the nested set, the
  result is assigned to the old dictionary of the variable, and the loop goes on
  (\<^verbatim>\<open>continue\<close>) without an assignment to \<^verbatim>\<open>loop_dict\<close>. The old dictionary is then
  replaced by \<^verbatim>\<open>loop_dict\<close>. A value under \<^verbatim>\<open>meta\<close> that is no dictionary has no
  \<^verbatim>\<open>keys\<close>: AttributeError.
\<close>

fun meta_array_expander :: "mdict \<Rightarrow> pyerror + mdict"
  and expand_labels :: "meta_record \<Rightarrow> meta_record \<Rightarrow> pyerror + meta_record" where
  "meta_array_expander [] = Inr []"
| "meta_array_expander ((key, rec) # rest) =
     (case expand_labels rec [] of
        Inl e \<Rightarrow> Inl e
      | Inr loop_dict \<Rightarrow>
          (case meta_array_expander rest of
             Inl e \<Rightarrow> Inl e
           | Inr rest' \<Rightarrow> Inr ((key, loop_dict) # rest')))"
| "expand_labels [] loop_dict = Inr loop_dict"
| "expand_labels ((meta_key, Meta sub) # more) loop_dict =
     (if meta_key = ''meta'' then
        (case meta_array_expander sub of
           Inl e \<Rightarrow> Inl e
         | Inr _ \<Rightarrow> expand_labels more loop_dict)
      else expand_labels more (assign_all (expand_value meta_key (Meta sub)) loop_dict))"
| "expand_labels ((meta_key, Sc s) # more) loop_dict =
     (if meta_key = ''meta'' then Inl AttributeError
      else expand_labels more (assign_all (expand_value meta_key (Sc s)) loop_dict))"
| "expand_labels ((meta_key, Arr xs) # more) loop_dict =
     (if meta_key = ''meta'' then Inl AttributeError
      else expand_labels more (assign_all (expand_value meta_key (Arr xs)) loop_dict))"



section \<open>The instrument, as the codec reads it\<close>

text \<open>
  \<^verbatim>\<open>str.lower\<close> on ASCII letters.
\<close>

definition lower_char :: "char \<Rightarrow> char" where
  "lower_char c =
     (case map_of (zip ''ABCDEFGHIJKLMNOPQRSTUVWXYZ'' ''abcdefghijklmnopqrstuvwxyz'') c of
        Some d \<Rightarrow> d | None \<Rightarrow> c)"

definition lower :: "string \<Rightarrow> string" where
  "lower s = map lower_char s"

text \<open>
  The codec reads an instrument through a few attributes: the time index (nanoseconds
  since 1970), the variables with what \<^verbatim>\<open>inst._get_data_info\<close> reports for each
  (element type, datetime flag), the metadata in dictionary form, the label names
  \<^verbatim>\<open>inst.meta.labels\<close>, and descriptive attributes. The classes behind them
  (\<^verbatim>\<open>pysat.Instrument\<close>, \<^verbatim>\<open>pysat.Meta\<close>) are collaborators of the codec; the record
  holds their answers.
\<close>

text \<open>
  The element type that \<^verbatim>\<open>inst._get_data_info\<close> reports is a class: one of the builtin
  classes \<^verbatim>\<open>bool\<close>, \<^verbatim>\<open>int\<close>, \<^verbatim>\<open>float\<close>, \<^verbatim>\<open>str\<close>, or a numpy scalar class.
\<close>

datatype np_type = NpBool | NpInt np_int | NpFloat np_float | NpStr

datatype coltype = CBool | CInt | CFloat | CStr | CNp np_type

record meta_labels =
  lbl_units :: string
  lbl_name :: string
  lbl_notes :: string
  lbl_desc :: string
  lbl_min_val :: string
  lbl_max_val :: string
  lbl_fill_val :: string
  label_attrs :: "(string \<times> string) list"

text \<open>
  A column of the data is one-dimensional, or its cells are themselves small tables
  (\<^verbatim>\<open>DataFrame\<close>) or series. A cell lists its index (name, element type, datetime flag,
  values) and its columns; a series has one unnamed column of values and a name of its
  own. Element types and datetime flags are what \<^verbatim>\<open>inst._get_data_info\<close> reports.
\<close>

type_synonym typed_values = "coltype \<times> bool \<times> scalar list"

datatype cell =
    Frame "string option" typed_values "(string \<times> typed_values) list"
  | Series "string option" typed_values "string option" typed_values

datatype column_data = Values "scalar list" | Cells "cell list"

record variable =
  var_name :: string
  dtype_object :: bool
  col_type :: coltype
  datetime_flag :: bool
  col_data :: column_data

record instrument =
  index :: "int list"
  variables :: "variable list"
  meta :: mdict
  labels :: meta_labels
  var_type_code :: "coltype \<Rightarrow> string"

text \<open>
  Modelled from the spec: the metadata store of \<^verbatim>\<open>pysat/_meta.py\<close> is not among the
  sources. The spec describes it as a mapping from variable to labels with a
  name-case-lookup helper: membership ignores case, and \<^verbatim>\<open>var_case_name\<close> gives the name
  in the case the store holds (the name as given when the store has none).
\<close>

definition meta_contains :: "mdict \<Rightarrow> string \<Rightarrow> bool" where
  "meta_contains m var = (lower var \<in> set (map (\<lambda>(k, r). lower k) m))"

definition var_case_name :: "mdict \<Rightarrow> string \<Rightarrow> string" where
  "var_case_name m var =
     (case find (\<lambda>(k, r). lower k = lower var) m of Some (k, r) \<Rightarrow> k | None \<Rightarrow> var)"

definition meta_to_dict :: "mdict \<Rightarrow> string \<Rightarrow> meta_record" where
  "meta_to_dict m var = (case map_of m var of Some r \<Rightarrow> r | None \<Rightarrow> [])"

section \<open>Epoch metadata\<close>

text \<open>
  \<^verbatim>\<open>pandas.Index.is_monotonic_increasing\<close> is true when each value is greater than or
  equal to the one before it (equal values allowed), \<^verbatim>\<open>is_monotonic_decreasing\<close> when
  each is less than or equal to the one before it.
\<close>

fun is_monotonic_increasing :: "int list \<Rightarrow> bool" where
  "is_monotonic_increasing (x # y # zs) = (x \<le> y \<and> is_monotonic_increasing (y # zs))"
| "is_monotonic_increasing _ = True"

fun is_monotonic_decreasing :: "int list \<Rightarrow> bool" where
  "is_monotonic_decreasing (x # y # zs) = (y \<le> x \<and> is_monotonic_decreasing (y # zs))"
| "is_monotonic_decreasing _ = True"

definition epoch_label :: string where
  "epoch_label = ''Milliseconds since 1970-1-1 00:00:00''"

text \<open>\<^verbatim>\<open>len(value)\<close>: a string, an array and a dictionary have a length, other values raise.\<close>

fun py_len :: "pyval \<Rightarrow> pyerror + nat" where
  "py_len (Sc (SStr s)) = Inr (length s)"
| "py_len (Sc (NStr s)) = Inr (length s)"
| "py_len (Sc _) = Inl TypeError"
| "py_len (Arr a) = Inr (length (elements a))"
| "py_len (Meta m) = Inr (length m)"

fun basic_labels_loop :: "string list \<Rightarrow> meta_record \<Rightarrow> pyerror + meta_record" where
  "basic_labels_loop [] new_dict = Inr new_dict"
| "basic_labels_loop (label # others) new_dict =
     (case map_of new_dict label of
        None \<Rightarrow> basic_labels_loop others (AList.update label (Sc (SStr epoch_label)) new_dict)
      | Some v \<Rightarrow>
          (case py_len v of
             Inl e \<Rightarrow> Inl e
           | Inr n \<Rightarrow>
               if n = 0
               then basic_labels_loop others (AList.update label (Sc (SStr epoch_label)) new_dict)
               else basic_labels_loop others new_dict))"

definition time_dict :: "int list \<Rightarrow> meta_record" where
  "time_dict idx =
     [(''calendar'', Sc (SStr ''standard'')), (''Format'', Sc (SStr ''i8'')),
      (''Var_Type'', Sc (SStr ''data'')), (''Time_Base'', Sc (SStr epoch_label)),
      (''Time_Scale'', Sc (SStr ''UTC''))] @
     (if is_monotonic_increasing idx then [(''MonoTon'', Sc (SStr ''increase''))]
      else if is_monotonic_decreasing idx then [(''MonoTon'', Sc (SStr ''decrease''))]
      else [])"

definition existing_epoch_meta :: "instrument \<Rightarrow> string \<Rightarrow> meta_record" where
  "existing_epoch_meta inst epoch_name =
     (if meta_contains (meta inst) epoch_name
      then meta_to_dict (meta inst) (var_case_name (meta inst) epoch_name)
      else [])"

definition return_epoch_metadata :: "instrument \<Rightarrow> string \<Rightarrow> pyerror + meta_record" where
  "return_epoch_metadata inst epoch_name =
     (let new_dict = existing_epoch_meta inst epoch_name;
          basic_labels =
            [lbl_units (labels inst), lbl_desc (labels inst), lbl_notes (labels inst)]
      in case basic_labels_loop basic_labels new_dict of
           Inl e \<Rightarrow> Inl e
         | Inr new_dict \<Rightarrow>
             Inr (assign_all (time_dict (index inst))
                    (AList.update (lbl_name (labels inst)) (Sc (SStr epoch_name)) new_dict)))"

text \<open>The label names that \<^verbatim>\<open>load_netcdf\<close> and the tests use by default.\<close>

definition default_labels :: meta_labels where
  "default_labels =
     \<lparr>lbl_units = ''units'', lbl_name = ''long_name'', lbl_notes = ''notes'', lbl_desc = ''desc'',
      lbl_min_val = ''value_min'', lbl_max_val = ''value_max'', lbl_fill_val = ''fill'',
      label_attrs = [(''units'', ''units''), (''long_name'', ''name''), (''notes'', ''notes''),
                     (''desc'', ''desc''), (''value_min'', ''min_val''),
                     (''value_max'', ''max_val''), (''fill'', ''fill_val'')]\<rparr>"

text \<open>
  The method \<^verbatim>\<open>inst._get_var_type_code\<close> is not among the sources; the instrument hands
  it over as \<^verbatim>\<open>var_type_code\<close>. For the examples: a table of codes for the numpy
  classes, and the code of a string for any other class.
\<close>

fun type_code :: "coltype \<Rightarrow> string" where
  "type_code (CNp (NpFloat Float64)) = ''f8''"
| "type_code (CNp (NpFloat Float32)) = ''f4''"
| "type_code (CNp (NpInt Int64)) = ''i8''"
| "type_code (CNp (NpInt Int32)) = ''i4''"
| "type_code (CNp (NpInt Int16)) = ''i2''"
| "type_code (CNp (NpInt Int8)) = ''i1''"
| "type_code (CNp (NpInt UInt64)) = ''u8''"
| "type_code (CNp (NpInt UInt32)) = ''u4''"
| "type_code (CNp (NpInt UInt16)) = ''u2''"
| "type_code (CNp (NpInt UInt8)) = ''u1''"
| "type_code _ = ''S1''"

definition repeated_times_inst :: instrument where
  "repeated_times_inst =
     \<lparr>index = [5, 5], variables = [], meta = [], labels = default_labels,
      var_type_code = type_code\<rparr>"

section \<open>The value filter\<close>

text \<open>
  \<^verbatim>\<open>if np.isnan(value):\<close> as the first loop of \<^verbatim>\<open>filter_netcdf4_metadata\<close> runs it.
  A number answers, None, a string and a dictionary raise TypeError (which the loop
  catches). An array of numbers is tested element by element and the result is an array
  of booleans: its truth value is that of its element when it has one, false when it has
  none, and with two or more elements asking for it raises ValueError, which the loop
  does not catch. An array of strings raises TypeError.
\<close>

fun is_number :: "scalar \<Rightarrow> bool" where
  "is_number (SBool b) = True"
| "is_number (SInt n) = True"
| "is_number (SFloat f) = True"
| "is_number (NBool b) = True"
| "is_number (NInt t n) = True"
| "is_number (NFloat t f) = True"
| "is_number _ = False"

fun is_nan :: "scalar \<Rightarrow> bool" where
  "is_nan (SFloat f) = (f = NaN)"
| "is_nan (NFloat t f) = (f = NaN)"
| "is_nan _ = False"

fun np_isnan_truth :: "pyval \<Rightarrow> pyerror + bool" where
  "np_isnan_truth (Sc s) = (if is_number s then Inr (is_nan s) else Inl TypeError)"
| "np_isnan_truth (Meta m) = Inl TypeError"
| "np_isnan_truth (Arr (StrArr ss)) = Inl TypeError"
| "np_isnan_truth (Arr a) =
     (case elements a of
        [] \<Rightarrow> Inr False
      | [x] \<Rightarrow> Inr (is_nan x)
      | _ \<Rightarrow> Inl ValueError)"

text \<open>
  The first loop: a NaN whose label is not in \<^verbatim>\<open>export_nan\<close> is popped from the copy.
\<close>

fun nan_loop ::
  "meta_record \<Rightarrow> string list \<Rightarrow> meta_record \<Rightarrow> pyerror + meta_record" where
  "nan_loop [] export_nan filtered_dict = Inr filtered_dict"
| "nan_loop ((key, v) # items) export_nan filtered_dict =
     (case np_isnan_truth v of
        Inl TypeError \<Rightarrow> nan_loop items export_nan filtered_dict
      | Inl e \<Rightarrow> Inl e
      | Inr isnan \<Rightarrow>
          if isnan \<and> key \<notin> set export_nan
          then nan_loop items export_nan (AList.delete key filtered_dict)
          else nan_loop items export_nan filtered_dict)"

text \<open>
  The declared type is a class or a numpy \<^verbatim>\<open>dtype\<close> object: \<^verbatim>\<open>bool\<close> is replaced by
  \<^verbatim>\<open>int\<close>, a \<^verbatim>\<open>dtype\<close> by the numpy class it describes (\<^verbatim>\<open>coltype.type\<close>).
\<close>

datatype type_or_dtype = Type coltype | Dtype np_type

fun declared_class :: "type_or_dtype \<Rightarrow> coltype" where
  "declared_class (Type CBool) = CInt"
| "declared_class (Type c) = c"
| "declared_class (Dtype t) = CNp t"

text \<open>
  \<^verbatim>\<open>isinstance(value, coltype)\<close> goes by the class of the value. A Python boolean is an
  \<^verbatim>\<open>int\<close>; \<^verbatim>\<open>np.float64\<close> derives from \<^verbatim>\<open>float\<close> and \<^verbatim>\<open>np.str_\<close> from \<^verbatim>\<open>str\<close>; no other
  numpy scalar is an instance of a builtin class, and no Python object is an instance of
  a numpy class. An array and a dictionary are instances of none of these classes.

  The call \<^verbatim>\<open>coltype(value)\<close> runs the constructor of the class: it returns a value, fails
  with TypeError or ValueError (which the loop catches), or raises something else. The
  filter takes it as the parameter \<^verbatim>\<open>cast\<close>.
\<close>

fun py_isinstance :: "pyval \<Rightarrow> coltype \<Rightarrow> bool" where
  "py_isinstance (Sc (SBool b)) CBool = True"
| "py_isinstance (Sc (SBool b)) CInt = True"
| "py_isinstance (Sc (SInt n)) CInt = True"
| "py_isinstance (Sc (SFloat f)) CFloat = True"
| "py_isinstance (Sc (NFloat t f)) CFloat = (t = Float64)"
| "py_isinstance (Sc (SStr s)) CStr = True"
| "py_isinstance (Sc (NStr s)) CStr = True"
| "py_isinstance (Sc (NBool b)) (CNp c) = (c = NpBool)"
| "py_isinstance (Sc (NInt t n)) (CNp c) = (c = NpInt t)"
| "py_isinstance (Sc (NFloat t f)) (CNp c) = (c = NpFloat t)"
| "py_isinstance (Sc (NStr s)) (CNp c) = (c = NpStr)"
| "py_isinstance _ _ = False"

datatype cast_outcome = Cast pyval | CastFails | CastRaises pyerror

type_synonym caster = "coltype \<Rightarrow> pyval \<Rightarrow> cast_outcome"

text \<open>\<^verbatim>\<open>isinstance(value, bool)\<close> holds of a Python boolean only.\<close>

fun coerce_bool :: "pyval \<Rightarrow> pyval" where
  "coerce_bool (Sc (SBool b)) = Sc (SInt (if b then 1 else 0))"
| "coerce_bool v = v"

text \<open>
  The second loop runs over the keys of the filtered dictionary; it rewrites values in
  place and collects the keys to remove and the warnings (one per failed cast, here the
  label it names). The state is the dictionary, \<^verbatim>\<open>remove_keys\<close> and the warnings.
\<close>

fun type_loop ::
  "caster \<Rightarrow> coltype \<Rightarrow> bool \<Rightarrow> string list \<Rightarrow> string list \<Rightarrow>
   meta_record \<times> string list \<times> string list \<Rightarrow>
   pyerror + meta_record \<times> string list \<times> string list" where
  "type_loop cast ct remove check_type [] st = Inr st"
| "type_loop cast ct remove check_type (key # keys) (filtered_dict, remove_keys, warned) =
     (case map_of filtered_dict key of
        None \<Rightarrow> Inl KeyError
      | Some v0 \<Rightarrow>
          (let v = coerce_bool v0;
               filtered_dict = AList.update key v filtered_dict
           in if v = Sc SNone
              then type_loop cast ct remove check_type keys
                     (filtered_dict, remove_keys @ [key], warned)
              else if key \<in> set check_type \<and> \<not> py_isinstance v ct
              then (if remove
                    then type_loop cast ct remove check_type keys
                           (filtered_dict, remove_keys @ [key], warned)
                    else (case cast ct v of
                            Cast w \<Rightarrow>
                              type_loop cast ct remove check_type keys
                                (AList.update key w filtered_dict, remove_keys, warned)
                          | CastFails \<Rightarrow>
                              type_loop cast ct remove check_type keys
                                (filtered_dict, remove_keys @ [key], warned @ [key])
                          | CastRaises e \<Rightarrow> Inl e))
              else type_loop cast ct remove check_type keys
                     (filtered_dict, remove_keys, warned)))"

definition filter_netcdf4_metadata ::
  "caster \<Rightarrow> meta_record \<Rightarrow> type_or_dtype \<Rightarrow> bool \<Rightarrow> string list \<Rightarrow> string list \<Rightarrow>
   pyerror + meta_record \<times> string list" where
  "filter_netcdf4_metadata cast mdata_dict coltype remove check_type export_nan =
     (let coltype = declared_class coltype
      in case nan_loop mdata_dict export_nan mdata_dict of
           Inl e \<Rightarrow> Inl e
         | Inr filtered_dict \<Rightarrow>
             (case type_loop cast coltype remove check_type (map fst filtered_dict)
                     (filtered_dict, [], []) of
                Inl e \<Rightarrow> Inl e
              | Inr (filtered_dict, remove_keys, warned) \<Rightarrow>
                  Inr (fold AList.delete remove_keys filtered_dict, warned)))"

text \<open>
  The constructors \<^verbatim>\<open>int\<close> and \<^verbatim>\<open>float\<close> and those of the numpy integer and float
  classes on numbers, for the examples. An integer constructor truncates a finite float
  towards zero, fails on NaN (ValueError) and raises OverflowError on an infinity. What
  the constructors do with other values (parsing a string) and what the constructors of
  the other classes do is not modelled: \<^verbatim>\<open>number_cast\<close> is only used on numbers and these
  classes.
\<close>

fun num_val :: "scalar \<Rightarrow> pyfloat option" where
  "num_val (SBool b) = Some (Fin (if b then 1 else 0))"
| "num_val (SInt n) = Some (Fin (of_int n))"
| "num_val (SFloat f) = Some f"
| "num_val (NBool b) = Some (Fin (if b then 1 else 0))"
| "num_val (NInt t n) = Some (Fin (of_int n))"
| "num_val (NFloat t f) = Some f"
| "num_val _ = None"

fun number_cast :: caster where
  "number_cast CFloat (Sc s) =
     (case num_val s of Some f \<Rightarrow> Cast (Sc (SFloat f)) | None \<Rightarrow> CastFails)"
| "number_cast (CNp (NpFloat t)) (Sc s) =
     (case num_val s of Some f \<Rightarrow> Cast (Sc (NFloat t f)) | None \<Rightarrow> CastFails)"
| "number_cast CInt (Sc s) =
     (case num_val s of
        Some (Fin r) \<Rightarrow> Cast (Sc (SInt (if 0 \<le> r then \<lfloor>r\<rfloor> else \<lceil>r\<rceil>)))
      | Some NaN \<Rightarrow> CastFails
      | Some PInf \<Rightarrow> CastRaises OverflowError
      | Some NInf \<Rightarrow> CastRaises OverflowError
      | None \<Rightarrow> CastFails)"
| "number_cast (CNp (NpInt t)) (Sc s) =
     (case num_val s of
        Some (Fin r) \<Rightarrow> Cast (Sc (NInt t (if 0 \<le> r then \<lfloor>r\<rfloor> else \<lceil>r\<rceil>)))
      | Some NaN \<Rightarrow> CastFails
      | Some PInf \<Rightarrow> CastRaises OverflowError
      | Some NInf \<Rightarrow> CastRaises OverflowError
      | None \<Rightarrow> CastFails)"
| "number_cast ct v = CastFails"

text \<open>
  What the second loop decides for one label, given its value after the first loop, and
  whether the first loop drops a label.
\<close>

datatype decision = Keep pyval | Drop | DropWarn | Raise pyerror

definition decide ::
  "caster \<Rightarrow> coltype \<Rightarrow> bool \<Rightarrow> string list \<Rightarrow> string \<Rightarrow> pyval \<Rightarrow> decision" where
  "decide cast ct remove check_type key v0 =
     (let v = coerce_bool v0
      in if v = Sc SNone then Drop
         else if key \<in> set check_type \<and> \<not> py_isinstance v ct
         then (if remove then Drop
               else case cast ct v of
                      Cast w \<Rightarrow> Keep w
                    | CastFails \<Rightarrow> DropWarn
                    | CastRaises e \<Rightarrow> Raise e)
         else Keep v)"

definition nan_dropped :: "string list \<Rightarrow> string \<Rightarrow> pyval \<Rightarrow> bool" where
  "nan_dropped export_nan key v = (np_isnan_truth v = Inr True \<and> key \<notin> set export_nan)"

definition is_dropped :: "decision \<Rightarrow> bool" where
  "is_dropped d = (d = Drop \<or> d = DropWarn)"

text \<open>The metadata of the scenario of the spec: a float variable \<^verbatim>\<open>mlt\<close>.\<close>

definition mlt_meta :: meta_record where
  "mlt_meta = [(''units'', Sc (SStr ''hours'')), (''fill'', Sc (SFloat NaN))]"

section \<open>Label translation, from the file\<close>

text \<open>
  Python's \<^verbatim>\<open>==\<close> on scalars: numbers compare by value whatever their class (a boolean
  is 0 or 1), NaN equals nothing, a string equals the same string, None equals None.
\<close>

fun str_val :: "scalar \<Rightarrow> string option" where
  "str_val (SStr s) = Some s"
| "str_val (NStr s) = Some s"
| "str_val _ = None"

definition scalar_eq :: "scalar \<Rightarrow> scalar \<Rightarrow> bool" where
  "scalar_eq a b =
     (case (num_val a, num_val b) of
        (Some x, Some y) \<Rightarrow> x = y \<and> x \<noteq> NaN
      | (None, None) \<Rightarrow> str_val a = str_val b
      | _ \<Rightarrow> False)"

text \<open>
  \<^verbatim>\<open>if a != b:\<close> where a value may be an array (the attributes of a file are numpy
  values): the comparison is made element by element, a one-element array stretching to
  the length of the other, and the truth value of the resulting array is asked for, as
  for the NaN test. Arrays of lengths that do not fit raise. A dictionary differs from
  whatever is not an equal dictionary.
\<close>

fun array_truth :: "bool list \<Rightarrow> pyerror + bool" where
  "array_truth [] = Inr False"
| "array_truth [b] = Inr b"
| "array_truth _ = Inl ValueError"

fun py_ne_truth :: "pyval \<Rightarrow> pyval \<Rightarrow> pyerror + bool" where
  "py_ne_truth (Sc a) (Sc b) = Inr (\<not> scalar_eq a b)"
| "py_ne_truth (Arr a) (Sc b) = array_truth (map (\<lambda>x. \<not> scalar_eq x b) (elements a))"
| "py_ne_truth (Sc a) (Arr b) = array_truth (map (\<lambda>y. \<not> scalar_eq a y) (elements b))"
| "py_ne_truth (Arr a) (Arr b) =
     (let xs = elements a; ys = elements b
      in if length xs = length ys
         then array_truth (map (\<lambda>(x, y). \<not> scalar_eq x y) (zip xs ys))
         else if length xs = 1 then array_truth (map (\<lambda>y. \<not> scalar_eq (hd xs) y) ys)
         else if length ys = 1 then array_truth (map (\<lambda>x. \<not> scalar_eq x (hd ys)) xs)
         else Inl ValueError)"
| "py_ne_truth (Meta m) (Meta n) = Inr (m \<noteq> n)"
| "py_ne_truth (Meta m) _ = Inr True"
| "py_ne_truth _ (Meta n) = Inr True"

text \<open>
  The consistency check of two values found for one translated label:
  \<^verbatim>\<open>check1 = not np.isnan(kept)\<close>, then \<^verbatim>\<open>check2 = not np.isnan(new)\<close>, and their
  conjunction; a TypeError from either test is caught and gives \<^verbatim>\<open>True\<close>.
\<close>

definition nan_check :: "pyval \<Rightarrow> pyval \<Rightarrow> pyerror + bool" where
  "nan_check kept new =
     (case np_isnan_truth kept of
        Inl TypeError \<Rightarrow> Inr True
      | Inl e \<Rightarrow> Inl e
      | Inr n1 \<Rightarrow>
          (case np_isnan_truth new of
             Inl TypeError \<Rightarrow> Inr True
           | Inl e \<Rightarrow> Inl e
           | Inr n2 \<Rightarrow> Inr (\<not> n1 \<and> \<not> n2)))"

text \<open>
  What the function logs: the warning built from the format string, which names the file
  label at hand, the translated label, the value at hand and the value kept; and the
  debug line for a table key that a variable does not have.
\<close>

datatype log_entry =
    Inconsistent string string pyval pyval
  | NotFound string string

type_synonym trans_table_from = "(string \<times> string) list"

definition translate_key :: "trans_table_from \<Rightarrow> string \<Rightarrow> string" where
  "translate_key trans_table file_key =
     (case map_of trans_table file_key of Some new_key \<Rightarrow> new_key | None \<Rightarrow> file_key)"

fun translate_labels ::
  "trans_table_from \<Rightarrow> meta_record \<Rightarrow> meta_record \<times> log_entry list \<Rightarrow>
   pyerror + meta_record \<times> log_entry list" where
  "translate_labels trans_table [] st = Inr st"
| "translate_labels trans_table ((file_key, v) # items) (filt, logged) =
     (let new_key = translate_key trans_table file_key
      in case map_of filt new_key of
           None \<Rightarrow> translate_labels trans_table items (AList.update new_key v filt, logged)
         | Some kept \<Rightarrow>
             (case py_ne_truth kept v of
                Inl e \<Rightarrow> Inl e
              | Inr False \<Rightarrow> translate_labels trans_table items (filt, logged)
              | Inr True \<Rightarrow>
                  (case nan_check kept v of
                     Inl e \<Rightarrow> Inl e
                   | Inr check \<Rightarrow>
                       translate_labels trans_table items
                         (filt, if check
                                then logged @ [Inconsistent file_key new_key v kept]
                                else logged))))"

definition missing_labels :: "trans_table_from \<Rightarrow> string \<Rightarrow> meta_record \<Rightarrow> log_entry list" where
  "missing_labels trans_table var_key rec =
     map (\<lambda>trans_key. NotFound trans_key var_key)
       (filter (\<lambda>trans_key. trans_key \<notin> fst ` set rec) (map fst trans_table))"

text \<open>
  The higher-order branch. \<^verbatim>\<open>ldict\<close> is the value under \<^verbatim>\<open>meta\<close> in the file metadata;
  the target is \<^verbatim>\<open>filt_dict[var_key]['meta']\<close>, which the first loop has set from the first
  file label that translates to \<^verbatim>\<open>meta\<close>. When that label is \<^verbatim>\<open>meta\<close> itself, the target
  is the very dictionary the loop runs over, and an assignment of a new key to it makes
  the iteration raise RuntimeError. Otherwise the target is another value: a dictionary
  takes the new keys; a string answers \<^verbatim>\<open>in\<close> by substring and refuses assignment, an
  array answers by membership and refuses a string index, other scalars refuse \<^verbatim>\<open>in\<close>.
\<close>

fun is_prefix :: "string \<Rightarrow> string \<Rightarrow> bool" where
  "is_prefix [] ys = True"
| "is_prefix (x # xs) [] = False"
| "is_prefix (x # xs) (y # ys) = (x = y \<and> is_prefix xs ys)"

fun is_substring :: "string \<Rightarrow> string \<Rightarrow> bool" where
  "is_substring xs [] = (xs = [])"
| "is_substring xs (y # ys) = (is_prefix xs (y # ys) \<or> is_substring xs ys)"

definition first_source :: "trans_table_from \<Rightarrow> meta_record \<Rightarrow> string \<Rightarrow> string option" where
  "first_source trans_table rec new_key =
     map_option fst (find (\<lambda>(file_key, v). translate_key trans_table file_key = new_key) rec)"

fun same_dict_loop :: "trans_table_from \<Rightarrow> mdict \<Rightarrow> string list \<Rightarrow> pyerror + unit" where
  "same_dict_loop trans_table ldict [] = Inr ()"
| "same_dict_loop trans_table ldict (file_key # keys) =
     (if translate_key trans_table file_key \<notin> fst ` set ldict then Inl RuntimeError
      else same_dict_loop trans_table ldict keys)"

fun other_target_loop ::
  "trans_table_from \<Rightarrow> mdict \<Rightarrow> pyval \<Rightarrow> pyerror + pyval" where
  "other_target_loop trans_table [] target = Inr target"
| "other_target_loop trans_table ((file_key, sub) # items) (Meta t) =
     (let new_key = translate_key trans_table file_key
      in if new_key \<notin> fst ` set t
         then other_target_loop trans_table items (Meta (AList.update new_key sub t))
         else other_target_loop trans_table items (Meta t))"
| "other_target_loop trans_table ((file_key, sub) # items) (Sc s) =
     (case str_val s of
        Some str \<Rightarrow>
          if is_substring (translate_key trans_table file_key) str
          then other_target_loop trans_table items (Sc s)
          else Inl TypeError
      | None \<Rightarrow> Inl TypeError)"
| "other_target_loop trans_table ((file_key, sub) # items) (Arr a) =
     (if list_ex (\<lambda>x. scalar_eq x (SStr (translate_key trans_table file_key))) (elements a)
      then other_target_loop trans_table items (Arr a)
      else Inl IndexError)"

definition translate_higher_order ::
  "trans_table_from \<Rightarrow> meta_record \<Rightarrow> meta_record \<Rightarrow> pyerror + meta_record" where
  "translate_higher_order trans_table rec filt =
     (case map_of rec ''meta'' of
        None \<Rightarrow> Inr filt
      | Some (Meta ldict) \<Rightarrow>
          (case map_of filt ''meta'' of
             None \<Rightarrow> if ldict = [] then Inr filt else Inl KeyError
           | Some target \<Rightarrow>
               if first_source trans_table rec ''meta'' = Some ''meta''
               then (case same_dict_loop trans_table ldict (map fst ldict) of
                       Inl e \<Rightarrow> Inl e
                     | Inr _ \<Rightarrow> Inr filt)
               else (case other_target_loop trans_table ldict target of
                       Inl e \<Rightarrow> Inl e
                     | Inr target' \<Rightarrow> Inr (AList.update ''meta'' target' filt)))
      | Some _ \<Rightarrow> Inl AttributeError)"

fun apply_table_translation_from_file ::
  "trans_table_from \<Rightarrow> mdict \<Rightarrow> pyerror + mdict \<times> log_entry list" where
  "apply_table_translation_from_file trans_table [] = Inr ([], [])"
| "apply_table_translation_from_file trans_table ((var_key, rec) # vars) =
     (case translate_labels trans_table rec ([], []) of
        Inl e \<Rightarrow> Inl e
      | Inr (filt, warned) \<Rightarrow>
          (case translate_higher_order trans_table rec filt of
             Inl e \<Rightarrow> Inl e
           | Inr filt \<Rightarrow>
               (case apply_table_translation_from_file trans_table vars of
                  Inl e \<Rightarrow> Inl e
                | Inr (filt_dict, logged) \<Rightarrow>
                    Inr ((var_key, filt) # filt_dict,
                         warned @ missing_labels trans_table var_key rec @ logged))))"

definition default_from_netcdf_translation_table :: "meta_labels \<Rightarrow> trans_table_from" where
  "default_from_netcdf_translation_table lbls =
     [(''_FillValue'', lbl_fill_val lbls), (''FillVal'', lbl_fill_val lbls),
      (''fill'', lbl_fill_val lbls)]"

text \<open>
  For the statements about translation: the value of the first file label of a record
  that translates to a given label, and the condition under which two scalar values
  found for one label are reported.
\<close>

definition kept_value :: "trans_table_from \<Rightarrow> meta_record \<Rightarrow> string \<Rightarrow> pyval option" where
  "kept_value trans_table rec new_key =
     map_option snd (find (\<lambda>(file_key, v). translate_key trans_table file_key = new_key) rec)"

definition scalars_reported :: "scalar \<Rightarrow> scalar \<Rightarrow> bool" where
  "scalars_reported kept new =
     (\<not> scalar_eq kept new \<and>
      (is_number kept \<and> is_number new \<longrightarrow> \<not> is_nan kept \<and> \<not> is_nan new))"

definition plain_record :: "meta_record \<Rightarrow> bool" where
  "plain_record rec =
     (distinct (map fst rec) \<and> ''meta'' \<notin> fst ` set rec \<and> (\<forall>(k, v) \<in> set rec. \<exists>s. v = Sc s))"

text \<open>
  The warnings that the labels of \<^verbatim>\<open>items\<close> cause when the loop starts from \<^verbatim>\<open>filt\<close>:
  one for each label that is not the first to reach its translated label and whose
  value is reported against the value kept.
\<close>

definition later_warnings ::
  "trans_table_from \<Rightarrow> meta_record \<Rightarrow> meta_record \<Rightarrow> log_entry set" where
  "later_warnings t filt items =
     {Inconsistent f (translate_key t f) (Sc b) (Sc a) | f a b.
        (f, Sc b) \<in> set items \<and>
        (case map_of filt (translate_key t f) of
           Some k \<Rightarrow> k = Sc a
         | None \<Rightarrow> kept_value t items (translate_key t f) = Some (Sc a) \<and>
                    first_source t items (translate_key t f) \<noteq> Some f) \<and>
        scalars_reported a b}"

section \<open>Properties of the array expander\<close>





lemma map_of_assign_all:
  "map_of (assign_all kvs acc) = map_of acc ++ map_of (rev kvs)"
  unfolding assign_all_def
proof (induction kvs arbitrary: acc)
  case Nil
  then show ?case by simp
next
  case (Cons kv kvs)
  obtain k v where kv: "kv = (k, v)" by (cases kv)
  show ?case
    by (simp add: kv Cons.IH update_conv' map_add_def fun_eq_iff split: option.splits)
qed







lemma set_update_subset: "set (AList.update k v al) \<subseteq> insert (k, v) (set al)"
  by (induction al) auto










text \<open>
  Where a generated label collides with a label of the record, the later assignment to
  \<^verbatim>\<open>loop_dict\<close> wins: the first element of the array is lost here.
\<close>

lemma meta_array_expander_collision:
  "meta_array_expander
     [(''mlt'', [(''x'', Arr (IntArr Int64 [1, 2])), (''x0'', Sc (SInt 9))])] =
   Inr [(''mlt'', [(''x0'', Sc (SInt 9)), (''x1'', Sc (NInt Int64 2))])]"
  by (simp add: assign_all_def string_of_nat.simps digit_char_def)

section \<open>Properties of the epoch metadata\<close>

lemma mono_inc_iff:
  "is_monotonic_increasing xs \<longleftrightarrow> (\<forall>i. Suc i < length xs \<longrightarrow> xs ! i \<le> xs ! Suc i)"
proof (induction xs rule: is_monotonic_increasing.induct)
  case (1 x y zs)
  show ?case
  proof
    assume a: "is_monotonic_increasing (x # y # zs)"
    show "\<forall>i. Suc i < length (x # y # zs) \<longrightarrow> (x # y # zs) ! i \<le> (x # y # zs) ! Suc i"
    proof (intro allI impI)
      fix i assume "Suc i < length (x # y # zs)"
      then show "(x # y # zs) ! i \<le> (x # y # zs) ! Suc i"
        using a 1 by (cases i) auto
    qed
  next
    assume a: "\<forall>i. Suc i < length (x # y # zs) \<longrightarrow> (x # y # zs) ! i \<le> (x # y # zs) ! Suc i"
    then have "x \<le> y" by force
    moreover have "\<forall>i. Suc i < length (y # zs) \<longrightarrow> (y # zs) ! i \<le> (y # zs) ! Suc i"
      using a by force
    ultimately show "is_monotonic_increasing (x # y # zs)" using 1 by simp
  qed
qed simp_all

lemma mono_dec_iff:
  "is_monotonic_decreasing xs \<longleftrightarrow> (\<forall>i. Suc i < length xs \<longrightarrow> xs ! Suc i \<le> xs ! i)"
proof (induction xs rule: is_monotonic_decreasing.induct)
  case (1 x y zs)
  show ?case
  proof
    assume a: "is_monotonic_decreasing (x # y # zs)"
    show "\<forall>i. Suc i < length (x # y # zs) \<longrightarrow> (x # y # zs) ! Suc i \<le> (x # y # zs) ! i"
    proof (intro allI impI)
      fix i assume "Suc i < length (x # y # zs)"
      then show "(x # y # zs) ! Suc i \<le> (x # y # zs) ! i"
        using a 1 by (cases i) auto
    qed
  next
    assume a: "\<forall>i. Suc i < length (x # y # zs) \<longrightarrow> (x # y # zs) ! Suc i \<le> (x # y # zs) ! i"
    then have "y \<le> x" by force
    moreover have "\<forall>i. Suc i < length (y # zs) \<longrightarrow> (y # zs) ! Suc i \<le> (y # zs) ! i"
      using a by force
    ultimately show "is_monotonic_decreasing (x # y # zs)" using 1 by simp
  qed
qed simp_all


lemma basic_labels_loop_returns:
  "\<forall>l \<in> set ls. \<forall>v. map_of d l = Some v \<longrightarrow> py_len v \<noteq> Inl TypeError \<Longrightarrow>
   \<exists>d'. basic_labels_loop ls d = Inr d'"
proof (induction ls arbitrary: d)
  case Nil
  then show ?case by simp
next
  case (Cons l ls)
  let ?u = "AList.update l (Sc (SStr epoch_label)) d"
  have sized: "\<forall>k \<in> set ls. \<forall>v. map_of ?u k = Some v \<longrightarrow> py_len v \<noteq> Inl TypeError"
    using Cons.prems by (auto simp: update_conv')
  have rest: "\<forall>k \<in> set ls. \<forall>v. map_of d k = Some v \<longrightarrow> py_len v \<noteq> Inl TypeError"
    using Cons.prems by auto
  show ?case
  proof (cases "map_of d l")
    case None
    then show ?thesis using Cons.IH[OF sized] by simp
  next
    case (Some v)
    with Cons.prems have "py_len v \<noteq> Inl TypeError" by auto
    then obtain n where n: "py_len v = Inr n"
      by (cases v rule: py_len.cases) auto
    show ?thesis using Some n Cons.IH[OF sized] Cons.IH[OF rest] by simp
  qed
qed

lemma map_of_time_dict_MonoTon:
  "map_of (rev (time_dict idx)) ''MonoTon'' =
     (if is_monotonic_increasing idx then Some (Sc (SStr ''increase''))
      else if is_monotonic_decreasing idx then Some (Sc (SStr ''decrease''))
      else None)"
  by (simp add: time_dict_def)


lemma basic_labels_loop_other:
  "basic_labels_loop ls d = Inr d' \<Longrightarrow> k \<notin> set ls \<Longrightarrow> map_of d' k = map_of d k"
proof (induction ls arbitrary: d)
  case Nil
  then show ?case by simp
next
  case (Cons l ls)
  from Cons.prems have kl: "k \<noteq> l" and kls: "k \<notin> set ls" by auto
  from Cons.prems(1) consider
      "basic_labels_loop ls (AList.update l (Sc (SStr epoch_label)) d) = Inr d'"
    | "basic_labels_loop ls d = Inr d'"
    by (auto split: option.splits sum.splits if_splits)
  then show ?case
  proof cases
    case 1
    from Cons.IH[OF 1 kls] show ?thesis using kl by (simp add: update_conv')
  next
    case 2
    from Cons.IH[OF 2 kls] show ?thesis .
  qed
qed

lemma return_epoch_metadata_lookup:
  assumes "return_epoch_metadata inst epoch_name = Inr d"
  shows "map_of d ''MonoTon'' =
     (if is_monotonic_increasing (index inst) then Some (Sc (SStr ''increase''))
      else if is_monotonic_decreasing (index inst) then Some (Sc (SStr ''decrease''))
      else if ''MonoTon'' \<in> {lbl_units (labels inst), lbl_desc (labels inst),
                lbl_notes (labels inst), lbl_name (labels inst)}
      then map_of d ''MonoTon''
      else map_of (existing_epoch_meta inst epoch_name) ''MonoTon'')"
proof -
  let ?ls = "[lbl_units (labels inst), lbl_desc (labels inst), lbl_notes (labels inst)]"
  from assms obtain nd where
    nd: "basic_labels_loop ?ls (existing_epoch_meta inst epoch_name) = Inr nd"
    and d: "d = assign_all (time_dict (index inst))
                  (AList.update (lbl_name (labels inst)) (Sc (SStr epoch_name)) nd)"
    by (auto simp: return_epoch_metadata_def Let_def split: sum.splits)
  have look: "map_of d ''MonoTon'' =
      (case map_of (rev (time_dict (index inst))) ''MonoTon'' of
         Some v \<Rightarrow> Some v
       | None \<Rightarrow> map_of (AList.update (lbl_name (labels inst)) (Sc (SStr epoch_name)) nd)
                   ''MonoTon'')"
    unfolding d by (simp add: map_of_assign_all map_add_def)
  show ?thesis
  proof (cases "is_monotonic_increasing (index inst) \<or> is_monotonic_decreasing (index inst)")
    case True
    then show ?thesis unfolding look map_of_time_dict_MonoTon by auto
  next
    case False
    show ?thesis
    proof (cases "''MonoTon'' \<in> {lbl_units (labels inst), lbl_desc (labels inst),
                lbl_notes (labels inst), lbl_name (labels inst)}")
      case True
      then show ?thesis using False by simp
    next
      case out: False
      then have "''MonoTon'' \<notin> set ?ls" by simp
      from basic_labels_loop_other[OF nd this]
      have "map_of nd ''MonoTon'' = map_of (existing_epoch_meta inst epoch_name) ''MonoTon''" .
      moreover from out have "lbl_name (labels inst) \<noteq> ''MonoTon''" by auto
      ultimately show ?thesis using False out unfolding look map_of_time_dict_MonoTon
        by (simp add: update_conv')
    qed
  qed
qed

text \<open>
  Claim C3, as the code has it. The function returns whenever the basic labels that the
  store already holds for the epoch have a length. In its result the tag \<^verbatim>\<open>MonoTon\<close> is
  \<^verbatim>\<open>increase\<close> when no time of the index is below the one before it (equal neighbours
  allowed), \<^verbatim>\<open>decrease\<close> when that fails and no time is above the one before it, and is
  not set otherwise: the result then holds the tag only if the stored epoch metadata did.
\<close>

theorem return_epoch_metadata_monoton:
  "((\<forall>l \<in> {lbl_units (labels inst), lbl_desc (labels inst), lbl_notes (labels inst)}.
       \<forall>v. map_of (existing_epoch_meta inst epoch_name) l = Some v \<longrightarrow>
           py_len v \<noteq> Inl TypeError) \<longrightarrow>
     (\<exists>d. return_epoch_metadata inst epoch_name = Inr d)) \<and>
   (\<forall>d. return_epoch_metadata inst epoch_name = Inr d \<longrightarrow>
     ((\<forall>i. Suc i < length (index inst) \<longrightarrow> index inst ! i \<le> index inst ! Suc i) \<longrightarrow>
        map_of d ''MonoTon'' = Some (Sc (SStr ''increase''))) \<and>
     (\<not> (\<forall>i. Suc i < length (index inst) \<longrightarrow> index inst ! i \<le> index inst ! Suc i) \<and>
      (\<forall>i. Suc i < length (index inst) \<longrightarrow> index inst ! Suc i \<le> index inst ! i) \<longrightarrow>
        map_of d ''MonoTon'' = Some (Sc (SStr ''decrease''))) \<and>
     (\<not> (\<forall>i. Suc i < length (index inst) \<longrightarrow> index inst ! i \<le> index inst ! Suc i) \<and>
      \<not> (\<forall>i. Suc i < length (index inst) \<longrightarrow> index inst ! Suc i \<le> index inst ! i) \<and>
      ''MonoTon'' \<notin> {lbl_units (labels inst), lbl_desc (labels inst),
                lbl_notes (labels inst), lbl_name (labels inst)} \<longrightarrow>
        map_of d ''MonoTon'' = map_of (existing_epoch_meta inst epoch_name) ''MonoTon''))"
proof (intro conjI allI impI)
  assume "\<forall>l \<in> {lbl_units (labels inst), lbl_desc (labels inst), lbl_notes (labels inst)}.
       \<forall>v. map_of (existing_epoch_meta inst epoch_name) l = Some v \<longrightarrow>
           py_len v \<noteq> Inl TypeError"
  then have "\<forall>l \<in> set [lbl_units (labels inst), lbl_desc (labels inst), lbl_notes (labels inst)].
       \<forall>v. map_of (existing_epoch_meta inst epoch_name) l = Some v \<longrightarrow>
           py_len v \<noteq> Inl TypeError" by simp
  from basic_labels_loop_returns[OF this]
  show "\<exists>d. return_epoch_metadata inst epoch_name = Inr d"
    by (auto simp: return_epoch_metadata_def Let_def)
next
  fix d assume r: "return_epoch_metadata inst epoch_name = Inr d"
  note l = return_epoch_metadata_lookup[OF r]
  {
    assume "\<forall>i. Suc i < length (index inst) \<longrightarrow> index inst ! i \<le> index inst ! Suc i"
    then have "is_monotonic_increasing (index inst)" by (simp add: mono_inc_iff)
    then show "map_of d ''MonoTon'' = Some (Sc (SStr ''increase''))"
      using l by simp
  next
    assume "\<not> (\<forall>i. Suc i < length (index inst) \<longrightarrow> index inst ! i \<le> index inst ! Suc i) \<and>
      (\<forall>i. Suc i < length (index inst) \<longrightarrow> index inst ! Suc i \<le> index inst ! i)"
    then have "\<not> is_monotonic_increasing (index inst)" "is_monotonic_decreasing (index inst)"
      unfolding mono_inc_iff mono_dec_iff by blast+
    then show "map_of d ''MonoTon'' = Some (Sc (SStr ''decrease''))"
      using l by simp
  next
    assume "\<not> (\<forall>i. Suc i < length (index inst) \<longrightarrow> index inst ! i \<le> index inst ! Suc i) \<and>
      \<not> (\<forall>i. Suc i < length (index inst) \<longrightarrow> index inst ! Suc i \<le> index inst ! i) \<and>
      ''MonoTon'' \<notin> {lbl_units (labels inst), lbl_desc (labels inst),
                lbl_notes (labels inst), lbl_name (labels inst)}"
    then have "\<not> is_monotonic_increasing (index inst)" "\<not> is_monotonic_decreasing (index inst)"
      and "''MonoTon'' \<notin> {lbl_units (labels inst), lbl_desc (labels inst),
                lbl_notes (labels inst), lbl_name (labels inst)}"
      unfolding mono_inc_iff mono_dec_iff by blast+
    then show "map_of d ''MonoTon'' = map_of (existing_epoch_meta inst epoch_name) ''MonoTon''"
      using l by simp
  }
qed

theorem return_epoch_metadata_repeated_counterexample:
  "return_epoch_metadata repeated_times_inst ''Epoch'' =
   Inr [(''units'', Sc (SStr epoch_label)), (''desc'', Sc (SStr epoch_label)),
        (''notes'', Sc (SStr epoch_label)), (''long_name'', Sc (SStr ''Epoch'')),
        (''calendar'', Sc (SStr ''standard'')), (''Format'', Sc (SStr ''i8'')),
        (''Var_Type'', Sc (SStr ''data'')), (''Time_Base'', Sc (SStr epoch_label)),
        (''Time_Scale'', Sc (SStr ''UTC'')), (''MonoTon'', Sc (SStr ''increase''))]"
  by (simp add: return_epoch_metadata_def repeated_times_inst_def existing_epoch_meta_def
      meta_contains_def default_labels_def time_dict_def assign_all_def)

theorem return_epoch_metadata_monoton_witness:
  "map_of (projr (return_epoch_metadata repeated_times_inst ''Epoch'')) ''MonoTon'' =
     Some (Sc (SStr ''increase''))"
proof -
  let ?d = "projr (return_epoch_metadata repeated_times_inst ''Epoch'')"
  have e: "\<forall>l \<in> {lbl_units (labels repeated_times_inst), lbl_desc (labels repeated_times_inst),
                lbl_notes (labels repeated_times_inst)}.
       \<forall>v. map_of (existing_epoch_meta repeated_times_inst ''Epoch'') l = Some v \<longrightarrow>
           py_len v \<noteq> Inl TypeError"
    by (simp add: repeated_times_inst_def existing_epoch_meta_def meta_contains_def)
  note t = return_epoch_metadata_monoton[of repeated_times_inst "''Epoch''"]
  from t e obtain d where d: "return_epoch_metadata repeated_times_inst ''Epoch'' = Inr d"
    by blast
  have m: "\<forall>i. Suc i < length (index repeated_times_inst) \<longrightarrow>
             index repeated_times_inst ! i \<le> index repeated_times_inst ! Suc i"
    by (simp add: repeated_times_inst_def)
  from t d m have "map_of d ''MonoTon'' = Some (Sc (SStr ''increase''))" by blast
  with d show ?thesis by simp
qed

section \<open>Properties of the value filter\<close>

lemma np_isnan_truth_errors:
  "np_isnan_truth v = Inl e \<Longrightarrow> e = TypeError \<or> e = ValueError"
  by (cases v rule: np_isnan_truth.cases) (auto split: if_splits list.splits)

lemma nan_loop_lookup:
  "nan_loop items ex fd0 = Inr fd \<Longrightarrow>
   map_of fd k = (if \<exists>v. (k, v) \<in> set items \<and> nan_dropped ex k v then None else map_of fd0 k)"
proof (induction items arbitrary: fd0)
  case Nil
  then show ?case by simp
next
  case (Cons kv items)
  obtain key v where kv: "kv = (key, v)" by (cases kv)
  show ?case
  proof (cases "nan_dropped ex key v")
    case True
    with Cons.prems kv have "nan_loop items ex (AList.delete key fd0) = Inr fd"
      by (auto simp: nan_dropped_def)
    from Cons.IH[OF this] show ?thesis using True kv
      by (auto simp: delete_conv')
  next
    case False
    with Cons.prems kv have "nan_loop items ex fd0 = Inr fd"
      by (auto simp: nan_dropped_def split: sum.splits pyerror.splits if_splits)
    from Cons.IH[OF this] show ?thesis using False kv by auto
  qed
qed

lemma nan_loop_distinct:
  "nan_loop items ex fd0 = Inr fd \<Longrightarrow> distinct (map fst fd0) \<Longrightarrow> distinct (map fst fd)"
proof (induction items arbitrary: fd0)
  case Nil
  then show ?case by simp
next
  case (Cons kv items)
  obtain key v where kv: "kv = (key, v)" by (cases kv)
  show ?case
  proof (cases "nan_dropped ex key v")
    case True
    with Cons.prems kv have "nan_loop items ex (AList.delete key fd0) = Inr fd"
      by (auto simp: nan_dropped_def)
    moreover have "distinct (map fst (AList.delete key fd0))"
      using Cons.prems(2) by (rule distinct_delete)
    ultimately show ?thesis by (rule Cons.IH)
  next
    case False
    with Cons.prems kv have "nan_loop items ex fd0 = Inr fd"
      by (auto simp: nan_dropped_def split: sum.splits pyerror.splits if_splits)
    then show ?thesis using Cons.prems(2) by (rule Cons.IH)
  qed
qed

lemma nan_loop_returns:
  "\<forall>(k, v) \<in> set items. np_isnan_truth v \<noteq> Inl ValueError \<Longrightarrow>
   \<exists>fd. nan_loop items ex fd0 = Inr fd"
proof (induction items arbitrary: fd0)
  case Nil
  then show ?case by simp
next
  case (Cons kv items)
  obtain key v where kv: "kv = (key, v)" by (cases kv)
  from Cons.prems kv have nv: "np_isnan_truth v \<noteq> Inl ValueError"
    and rest: "\<forall>(k, v) \<in> set items. np_isnan_truth v \<noteq> Inl ValueError" by auto
  show ?case
  proof (cases "np_isnan_truth v")
    case (Inl e)
    with nv np_isnan_truth_errors have "e = TypeError" by blast
    then show ?thesis using Inl kv Cons.IH[OF rest] by simp
  next
    case (Inr b)
    then show ?thesis using kv Cons.IH[OF rest] by simp
  qed
qed

lemma update_update_same: "AList.update k w (AList.update k v al) = AList.update k w al"
  by (induction al) auto

lemma type_loop_step:
  assumes "map_of fd key = Some v0"
  shows "type_loop cast ct rm chk (key # keys) (fd, rk, ws) =
     (case decide cast ct rm chk key v0 of
        Keep w \<Rightarrow> type_loop cast ct rm chk keys (AList.update key w fd, rk, ws)
      | Drop \<Rightarrow> type_loop cast ct rm chk keys (AList.update key (coerce_bool v0) fd, rk @ [key], ws)
      | DropWarn \<Rightarrow> type_loop cast ct rm chk keys (AList.update key (coerce_bool v0) fd, rk @ [key], ws @ [key])
      | Raise e \<Rightarrow> Inl e)"
proof (cases "coerce_bool v0 = Sc SNone")
  case True
  then show ?thesis using assms by (simp add: decide_def)
next
  case nn: False
  show ?thesis
  proof (cases "key \<in> set chk \<and> \<not> py_isinstance (coerce_bool v0) ct")
    case False
    then have "\<not> (key \<in> set chk \<and> \<not> py_isinstance (coerce_bool v0) ct)" by simp
    then show ?thesis using assms nn by (simp add: decide_def Let_def del: de_Morgan_conj)
  next
    case True
    show ?thesis
    proof (cases rm)
      case True
      then show ?thesis using assms nn \<open>key \<in> set chk \<and> \<not> py_isinstance (coerce_bool v0) ct\<close>
        by (simp add: decide_def Let_def)
    next
      case False
      then show ?thesis using assms nn True
        by (cases "cast ct (coerce_bool v0)") (simp_all add: decide_def Let_def update_update_same)
    qed
  qed
qed

lemma type_loop_result:
  assumes "distinct ks" and "set ks \<subseteq> fst ` set fd"
    and "type_loop cast ct rm chk ks (fd, rk, ws) = Inr (fd', rk', ws')"
  shows "rk' = rk @ filter (\<lambda>k. \<exists>v0. map_of fd k = Some v0 \<and>
                       is_dropped (decide cast ct rm chk k v0)) ks \<and>
         ws' = ws @ filter (\<lambda>k. \<exists>v0. map_of fd k = Some v0 \<and>
                       decide cast ct rm chk k v0 = DropWarn) ks \<and>
         (\<forall>k. k \<notin> set ks \<longrightarrow> map_of fd' k = map_of fd k) \<and>
         (\<forall>k v0 w. k \<in> set ks \<longrightarrow> map_of fd k = Some v0 \<longrightarrow>
              decide cast ct rm chk k v0 = Keep w \<longrightarrow> map_of fd' k = Some w) \<and>
         (\<forall>k v0 e. k \<in> set ks \<longrightarrow> map_of fd k = Some v0 \<longrightarrow>
              decide cast ct rm chk k v0 \<noteq> Raise e)"
  using assms
proof (induction ks arbitrary: fd rk ws)
  case Nil
  then show ?case by simp
next
  case (Cons key keys)
  from Cons.prems(2) have "key \<in> fst ` set fd" by simp
  then have "map_of fd key \<noteq> None" by (simp add: map_of_eq_None_iff)
  then obtain v0 where v0: "map_of fd key = Some v0" by blast
  have dk: "distinct keys" and nk: "key \<notin> set keys" using Cons.prems by auto
  define fd1 where "fd1 = (case decide cast ct rm chk key v0 of
       Keep w \<Rightarrow> AList.update key w fd | _ \<Rightarrow> AList.update key (coerce_bool v0) fd)"
  define rk1 where "rk1 = (if is_dropped (decide cast ct rm chk key v0) then rk @ [key] else rk)"
  define ws1 where "ws1 = (if decide cast ct rm chk key v0 = DropWarn then ws @ [key] else ws)"
  have noraise: "\<forall>e. decide cast ct rm chk key v0 \<noteq> Raise e"
    using Cons.prems(3) unfolding type_loop_step[OF v0] by (auto split: decision.splits)
  have step: "type_loop cast ct rm chk keys (fd1, rk1, ws1) = Inr (fd', rk', ws')"
    using Cons.prems(3) unfolding type_loop_step[OF v0] fd1_def rk1_def ws1_def
    by (cases "decide cast ct rm chk key v0") (simp_all add: is_dropped_def)
  have sub: "set keys \<subseteq> fst ` set fd1"
    using Cons.prems(2) unfolding fd1_def
    by (cases "decide cast ct rm chk key v0") (auto simp: dom_update)
  have same: "\<And>k. k \<noteq> key \<Longrightarrow> map_of fd1 k = map_of fd k"
    unfolding fd1_def by (cases "decide cast ct rm chk key v0") (simp_all add: update_conv')
  have at_key: "\<And>w. decide cast ct rm chk key v0 = Keep w \<Longrightarrow> map_of fd1 key = Some w"
    unfolding fd1_def by (simp add: update_conv')
  note IH = Cons.IH[OF dk sub step]
  have f1: "filter (\<lambda>k. \<exists>v0. map_of fd1 k = Some v0 \<and> is_dropped (decide cast ct rm chk k v0)) keys =
            filter (\<lambda>k. \<exists>v0. map_of fd k = Some v0 \<and> is_dropped (decide cast ct rm chk k v0)) keys"
  proof (rule filter_cong)
    fix k assume "k \<in> set keys"
    with nk have "k \<noteq> key" by auto
    then have "map_of fd1 k = map_of fd k" by (rule same)
    then show "(\<exists>v0. map_of fd1 k = Some v0 \<and> is_dropped (decide cast ct rm chk k v0)) =
               (\<exists>v0. map_of fd k = Some v0 \<and> is_dropped (decide cast ct rm chk k v0))"
      by simp
  qed simp
  have f2: "filter (\<lambda>k. \<exists>v0. map_of fd1 k = Some v0 \<and> decide cast ct rm chk k v0 = DropWarn) keys =
            filter (\<lambda>k. \<exists>v0. map_of fd k = Some v0 \<and> decide cast ct rm chk k v0 = DropWarn) keys"
  proof (rule filter_cong)
    fix k assume "k \<in> set keys"
    with nk have "k \<noteq> key" by auto
    then have "map_of fd1 k = map_of fd k" by (rule same)
    then show "(\<exists>v0. map_of fd1 k = Some v0 \<and> decide cast ct rm chk k v0 = DropWarn) =
               (\<exists>v0. map_of fd k = Some v0 \<and> decide cast ct rm chk k v0 = DropWarn)"
      by simp
  qed simp
  have r: "rk' = rk @ filter (\<lambda>k. \<exists>v0. map_of fd k = Some v0 \<and>
                       is_dropped (decide cast ct rm chk k v0)) (key # keys)"
    using IH f1 v0 by (simp add: rk1_def)
  have w: "ws' = ws @ filter (\<lambda>k. \<exists>v0. map_of fd k = Some v0 \<and>
                       decide cast ct rm chk k v0 = DropWarn) (key # keys)"
    using IH f2 v0 by (simp add: ws1_def)
  have o: "\<forall>k. k \<notin> set (key # keys) \<longrightarrow> map_of fd' k = map_of fd k"
    using IH same by simp
  have k: "\<forall>k v0 w. k \<in> set (key # keys) \<longrightarrow> map_of fd k = Some v0 \<longrightarrow>
              decide cast ct rm chk k v0 = Keep w \<longrightarrow> map_of fd' k = Some w"
  proof (intro allI impI)
    fix k u w assume kin: "k \<in> set (key # keys)" and mu: "map_of fd k = Some u"
      and dec: "decide cast ct rm chk k u = Keep w"
    show "map_of fd' k = Some w"
    proof (cases "k = key")
      case True
      with mu v0 dec have "map_of fd1 key = Some w" using at_key by simp
      moreover from IH nk have "map_of fd' key = map_of fd1 key" by simp
      ultimately show ?thesis using True by simp
    next
      case False
      with kin have "k \<in> set keys" by simp
      moreover from False same mu have "map_of fd1 k = Some u" by simp
      ultimately show ?thesis using IH dec by blast
    qed
  qed
  have nr: "\<forall>k v0 e. k \<in> set (key # keys) \<longrightarrow> map_of fd k = Some v0 \<longrightarrow>
              decide cast ct rm chk k v0 \<noteq> Raise e"
  proof (intro allI impI)
    fix k u e assume kin: "k \<in> set (key # keys)" and mu: "map_of fd k = Some u"
    show "decide cast ct rm chk k u \<noteq> Raise e"
    proof (cases "k = key")
      case True
      with mu v0 noraise show ?thesis by simp
    next
      case False
      with kin have "k \<in> set keys" by simp
      moreover from False same mu have "map_of fd1 k = Some u" by simp
      ultimately show ?thesis using IH by blast
    qed
  qed
  from r w o k nr show ?case by blast
qed

lemma type_loop_returns:
  assumes "distinct ks" and "set ks \<subseteq> fst ` set fd"
    and "\<forall>k \<in> set ks. \<forall>v0 e. map_of fd k = Some v0 \<longrightarrow> decide cast ct rm chk k v0 \<noteq> Raise e"
  shows "\<exists>st. type_loop cast ct rm chk ks (fd, rk, ws) = Inr st"
  using assms
proof (induction ks arbitrary: fd rk ws)
  case Nil
  then show ?case by simp
next
  case (Cons key keys)
  from Cons.prems(2) have "key \<in> fst ` set fd" by simp
  then have "map_of fd key \<noteq> None" by (simp add: map_of_eq_None_iff)
  then obtain v0 where v0: "map_of fd key = Some v0" by blast
  have dk: "distinct keys" and nk: "key \<notin> set keys" using Cons.prems by auto
  have noraise: "\<forall>e. decide cast ct rm chk key v0 \<noteq> Raise e"
    using Cons.prems(3) v0 by simp
  have next_ok: "\<exists>st. type_loop cast ct rm chk keys (AList.update key u fd, rk1, ws1) = Inr st"
    for u rk1 ws1
  proof (rule Cons.IH[OF dk])
    show "set keys \<subseteq> fst ` set (AList.update key u fd)"
      using Cons.prems(2) by (auto simp: dom_update)
    show "\<forall>k \<in> set keys. \<forall>v0 e. map_of (AList.update key u fd) k = Some v0 \<longrightarrow>
            decide cast ct rm chk k v0 \<noteq> Raise e"
      using Cons.prems(3) nk by (auto simp: update_conv')
  qed
  show ?case unfolding type_loop_step[OF v0]
    using noraise next_ok by (cases "decide cast ct rm chk key v0") simp_all
qed

lemma map_of_fold_delete:
  "map_of (fold AList.delete ks al) k = (if k \<in> set ks then None else map_of al k)"
  by (induction ks arbitrary: al) (auto simp: delete_conv')

lemma filter_parts:
  assumes "filter_netcdf4_metadata cast md ct rm chk ex = Inr (fd, ws)"
  obtains f1 f2 rk where
    "nan_loop md ex md = Inr f1"
    "type_loop cast (declared_class ct) rm chk (map fst f1) (f1, [], []) =
       Inr (f2, rk, ws)"
    "fd = fold AList.delete rk f2"
  using assms unfolding filter_netcdf4_metadata_def Let_def
  by (auto split: sum.splits prod.splits)

lemma filter_lookup:
  assumes d: "distinct (map fst md)"
    and r: "filter_netcdf4_metadata cast md ct rm chk ex = Inr (fd, ws)"
  shows "map_of fd k =
     (case map_of md k of
        None \<Rightarrow> None
      | Some v \<Rightarrow>
          if nan_dropped ex k v then None
          else case decide cast (declared_class ct) rm chk k v of
                 Keep w \<Rightarrow> Some w | _ \<Rightarrow> None)"
    and "k \<in> set ws \<longleftrightarrow>
     (\<exists>v. map_of md k = Some v \<and> \<not> nan_dropped ex k v \<and>
          decide cast (declared_class ct) rm chk k v = DropWarn)"
proof -
  define ct' where "ct' = (declared_class ct)"
  from r obtain f1 f2 rk where
    n: "nan_loop md ex md = Inr f1" and
    t: "type_loop cast ct' rm chk (map fst f1) (f1, [], []) = Inr (f2, rk, ws)" and
    fd: "fd = fold AList.delete rk f2"
    unfolding ct'_def by (rule filter_parts)
  have mem: "\<And>v. (k, v) \<in> set md \<longleftrightarrow> map_of md k = Some v"
    using d by simp
  have f1: "map_of f1 k = (case map_of md k of None \<Rightarrow> None
      | Some v \<Rightarrow> if nan_dropped ex k v then None else Some v)"
    unfolding nan_loop_lookup[OF n] mem by (auto split: option.splits)
  have d1: "distinct (map fst f1)" using n d by (rule nan_loop_distinct)
  have sub: "set (map fst f1) \<subseteq> fst ` set f1" by simp
  have dom: "\<And>v0. map_of f1 k = Some v0 \<Longrightarrow> k \<in> set (map fst f1)"
    by (force dest: map_of_SomeD)
  note res = type_loop_result[OF d1 sub t]
  from res have rk_eq: "rk = filter (\<lambda>k. \<exists>v0. map_of f1 k = Some v0 \<and>
                       is_dropped (decide cast ct' rm chk k v0)) (map fst f1)" by simp
  from res have ws_eq: "ws = filter (\<lambda>k. \<exists>v0. map_of f1 k = Some v0 \<and>
                       decide cast ct' rm chk k v0 = DropWarn) (map fst f1)" by simp
  have rk: "k \<in> set rk \<longleftrightarrow> (\<exists>v0. map_of f1 k = Some v0 \<and> is_dropped (decide cast ct' rm chk k v0))"
    unfolding rk_eq using dom by auto
  have wsk: "k \<in> set ws \<longleftrightarrow> (\<exists>v0. map_of f1 k = Some v0 \<and> decide cast ct' rm chk k v0 = DropWarn)"
    unfolding ws_eq using dom by auto
  have look: "map_of fd k = (if k \<in> set rk then None else map_of f2 k)"
    unfolding fd by (rule map_of_fold_delete)
  have "map_of fd k =
     (case map_of md k of
        None \<Rightarrow> None
      | Some v \<Rightarrow>
          if nan_dropped ex k v then None
          else case decide cast ct' rm chk k v of
                 Keep w \<Rightarrow> Some w | _ \<Rightarrow> None)"
  proof (cases "map_of f1 k")
    case None
    then have "k \<notin> set (map fst f1)" by (simp add: map_of_eq_None_iff)
    with res have "map_of f2 k = map_of f1 k" by blast
    with None look rk have "map_of fd k = None" by simp
    moreover from None f1 have "map_of md k = None \<or> (\<exists>v. map_of md k = Some v \<and> nan_dropped ex k v)"
      by (auto split: option.splits if_splits)
    ultimately show ?thesis by auto
  next
    case (Some v0)
    with f1 have md: "map_of md k = Some v0" and nd: "\<not> nan_dropped ex k v0"
      by (auto split: option.splits if_splits)
    from Some have kin: "k \<in> set (map fst f1)" by (rule dom)
    show ?thesis
    proof (cases "decide cast ct' rm chk k v0")
      case (Keep w)
      with res kin Some have "map_of f2 k = Some w" by blast
      moreover from Keep Some rk have "k \<notin> set rk" by (simp add: is_dropped_def)
      ultimately show ?thesis using look md nd Keep by simp
    next
      case Drop
      with Some rk have "k \<in> set rk" by (simp add: is_dropped_def)
      then show ?thesis using look md nd Drop by simp
    next
      case DropWarn
      with Some rk have "k \<in> set rk" by (simp add: is_dropped_def)
      then show ?thesis using look md nd DropWarn by simp
    next
      case (Raise e)
      moreover from res kin Some have "decide cast ct' rm chk k v0 \<noteq> Raise e" by blast
      ultimately show ?thesis by simp
    qed
  qed
  then show "map_of fd k =
     (case map_of md k of
        None \<Rightarrow> None
      | Some v \<Rightarrow>
          if nan_dropped ex k v then None
          else case decide cast (declared_class ct) rm chk k v of
                 Keep w \<Rightarrow> Some w | _ \<Rightarrow> None)"
    unfolding ct'_def .
  have "k \<in> set ws \<longleftrightarrow>
     (\<exists>v. map_of md k = Some v \<and> \<not> nan_dropped ex k v \<and>
          decide cast ct' rm chk k v = DropWarn)"
    unfolding wsk f1 by (auto split: option.splits if_splits)
  then show "k \<in> set ws \<longleftrightarrow>
     (\<exists>v. map_of md k = Some v \<and> \<not> nan_dropped ex k v \<and>
          decide cast (declared_class ct) rm chk k v = DropWarn)"
    unfolding ct'_def .
qed

lemma filter_returns:
  assumes d: "distinct (map fst md)"
    and amb: "\<forall>(k, v) \<in> set md. np_isnan_truth v \<noteq> Inl ValueError"
    and nr: "\<forall>(k, v) \<in> set md. \<forall>e.
               decide cast (declared_class ct) rm chk k v \<noteq> Raise e"
  shows "\<exists>fd ws. filter_netcdf4_metadata cast md ct rm chk ex = Inr (fd, ws)"
proof -
  define ct' where "ct' = (declared_class ct)"
  from nan_loop_returns[OF amb] obtain f1 where n: "nan_loop md ex md = Inr f1" by blast
  have d1: "distinct (map fst f1)" using n d by (rule nan_loop_distinct)
  have sub: "set (map fst f1) \<subseteq> fst ` set f1" by simp
  have "\<forall>k \<in> set (map fst f1). \<forall>v0 e. map_of f1 k = Some v0 \<longrightarrow>
          decide cast ct' rm chk k v0 \<noteq> Raise e"
  proof (intro ballI allI impI)
    fix k v0 e assume "map_of f1 k = Some v0"
    then have "map_of md k = Some v0"
      unfolding nan_loop_lookup[OF n] by (auto split: if_splits)
    then have "(k, v0) \<in> set md" by (rule map_of_SomeD)
    with nr show "decide cast ct' rm chk k v0 \<noteq> Raise e" unfolding ct'_def by blast
  qed
  from type_loop_returns[OF d1 sub this]
  obtain st where "type_loop cast ct' rm chk (map fst f1) (f1, [], []) = Inr st" by blast
  then show ?thesis using n
    unfolding filter_netcdf4_metadata_def Let_def ct'_def
    by (cases st) (auto split: prod.splits)
qed

lemma np_isnan_truth_ambiguous:
  "np_isnan_truth v = Inl ValueError \<Longrightarrow> \<exists>a. v = Arr a \<and> 2 \<le> length (elements a)"
  by (cases v rule: np_isnan_truth.cases) (auto split: if_splits list.splits)

lemma decide_raise:
  "decide cast ct rm chk k v = Raise e \<Longrightarrow> cast ct (coerce_bool v) = CastRaises e"
  by (auto simp: decide_def Let_def split: if_splits cast_outcome.splits)

text \<open>
  What the filter does when it returns, for a dictionary (distinct labels) and any
  constructor \<^verbatim>\<open>cast\<close>: no label is added; a NaN whose label is not in \<^verbatim>\<open>export_nan\<close> is
  absent; None is absent; a Python boolean has become the integer 0 or 1 (unless a cast
  to another declared class follows); a label of \<^verbatim>\<open>check_type\<close> whose value is not of the
  declared class is absent when \<^verbatim>\<open>remove\<close> is set, holds the cast value when the cast
  succeeds, and is absent with a warning when the cast fails with TypeError or
  ValueError; every other label keeps its value. The filter returns when no value is an
  array of two or more numbers and no cast raises another error.
\<close>

lemma filter_netcdf4_metadata_filters:
  assumes "distinct (map fst md)"
  shows
   "((\<forall>(k, v) \<in> set md. (\<forall>a. v = Arr a \<longrightarrow> length (elements a) < 2) \<and>
         (\<forall>e. cast (declared_class ct) (coerce_bool v) \<noteq> CastRaises e)) \<longrightarrow>
     (\<exists>fd ws. filter_netcdf4_metadata cast md ct rm chk ex = Inr (fd, ws))) \<and>
    (\<forall>fd ws. filter_netcdf4_metadata cast md ct rm chk ex = Inr (fd, ws) \<longrightarrow>
       (\<forall>k. map_of md k = None \<longrightarrow> map_of fd k = None) \<and>
       (\<forall>k v. map_of md k = Some v \<longrightarrow>
          (np_isnan_truth v = Inr True \<and> k \<notin> set ex \<longrightarrow> map_of fd k = None) \<and>
          (v = Sc SNone \<longrightarrow> map_of fd k = None) \<and>
          (\<forall>b. v = Sc (SBool b) \<and> (k \<notin> set chk \<or> declared_class ct = CInt) \<longrightarrow>
               map_of fd k = Some (Sc (SInt (if b then 1 else 0)))) \<and>
          (\<not> (np_isnan_truth v = Inr True \<and> k \<notin> set ex) \<and> v \<noteq> Sc SNone \<and>
           k \<in> set chk \<and> \<not> py_isinstance (coerce_bool v) (declared_class ct) \<longrightarrow>
             (rm \<longrightarrow> map_of fd k = None \<and> k \<notin> set ws) \<and>
             (\<not> rm \<longrightarrow>
                (\<forall>w. cast (declared_class ct) (coerce_bool v) = Cast w \<longrightarrow>
                     map_of fd k = Some w \<and> k \<notin> set ws) \<and>
                (cast (declared_class ct) (coerce_bool v) = CastFails \<longrightarrow>
                     map_of fd k = None \<and> k \<in> set ws))) \<and>
          (\<not> (np_isnan_truth v = Inr True \<and> k \<notin> set ex) \<and> v \<noteq> Sc SNone \<and>
           (k \<notin> set chk \<or> py_isinstance (coerce_bool v) (declared_class ct)) \<longrightarrow>
             map_of fd k = Some (coerce_bool v) \<and> k \<notin> set ws)))"
proof (intro conjI impI allI)
  assume h: "\<forall>(k, v) \<in> set md. (\<forall>a. v = Arr a \<longrightarrow> length (elements a) < 2) \<and>
         (\<forall>e. cast (declared_class ct) (coerce_bool v) \<noteq> CastRaises e)"
  have amb: "\<forall>(k, v) \<in> set md. np_isnan_truth v \<noteq> Inl ValueError"
    using h np_isnan_truth_ambiguous by fastforce
  have nr: "\<forall>(k, v) \<in> set md. \<forall>e. decide cast (declared_class ct) rm chk k v \<noteq> Raise e"
    using h decide_raise by fastforce
  from filter_returns[OF assms amb nr]
  show "\<exists>fd ws. filter_netcdf4_metadata cast md ct rm chk ex = Inr (fd, ws)" .
next
  fix fd ws k
  assume r: "filter_netcdf4_metadata cast md ct rm chk ex = Inr (fd, ws)"
    and "map_of md k = None"
  then show "map_of fd k = None" using filter_lookup(1)[OF assms r, of k] by simp
next
  fix fd ws k v
  assume r: "filter_netcdf4_metadata cast md ct rm chk ex = Inr (fd, ws)"
    and m: "map_of md k = Some v"
  note l = filter_lookup(1)[OF assms r, of k] and w = filter_lookup(2)[OF assms r, of k]
  {
    assume "np_isnan_truth v = Inr True \<and> k \<notin> set ex"
    then show "map_of fd k = None" using l m by (simp add: nan_dropped_def)
  next
    assume "v = Sc SNone"
    then show "map_of fd k = None" using l m by (simp add: nan_dropped_def decide_def)
  next
    fix b assume "v = Sc (SBool b) \<and> (k \<notin> set chk \<or> declared_class ct = CInt)"
    then show "map_of fd k = Some (Sc (SInt (if b then 1 else 0)))"
      using l m by (auto simp: nan_dropped_def decide_def)
  next
    assume a: "\<not> (np_isnan_truth v = Inr True \<and> k \<notin> set ex) \<and> v \<noteq> Sc SNone \<and>
           k \<in> set chk \<and> \<not> py_isinstance (coerce_bool v) (declared_class ct)"
    then have nn: "coerce_bool v \<noteq> Sc SNone" by (cases v rule: coerce_bool.cases) auto
    {
      assume rm
      then show "map_of fd k = None" using l m a nn
        by (simp add: nan_dropped_def decide_def Let_def)
      from \<open>rm\<close> show "k \<notin> set ws" using w m a nn
        by (simp add: nan_dropped_def decide_def Let_def)
    next
      fix u assume "\<not> rm" and c: "cast (declared_class ct) (coerce_bool v) = Cast u"
      then show "map_of fd k = Some u" using l m a nn
        by (simp add: nan_dropped_def decide_def Let_def)
      from \<open>\<not> rm\<close> c show "k \<notin> set ws" using w m a nn
        by (simp add: nan_dropped_def decide_def Let_def)
    next
      assume "\<not> rm" and c: "cast (declared_class ct) (coerce_bool v) = CastFails"
      then show "map_of fd k = None" using l m a nn
        by (simp add: nan_dropped_def decide_def Let_def)
      from \<open>\<not> rm\<close> c show "k \<in> set ws" using w m a nn
        by (simp add: nan_dropped_def decide_def Let_def)
    }
  next
    assume a: "\<not> (np_isnan_truth v = Inr True \<and> k \<notin> set ex) \<and> v \<noteq> Sc SNone \<and>
           (k \<notin> set chk \<or> py_isinstance (coerce_bool v) (declared_class ct))"
    then have nn: "coerce_bool v \<noteq> Sc SNone" by (cases v rule: coerce_bool.cases) auto
    from a nn show "map_of fd k = Some (coerce_bool v)" using l m
      by (auto simp: nan_dropped_def decide_def Let_def)
    from a nn show "k \<notin> set ws" using w m
      by (auto simp: nan_dropped_def decide_def Let_def)
  }
qed

text \<open>
  The scenario of the spec: the metadata \<^verbatim>\<open>{units: 'hours', fill: NaN}\<close> of a float
  variable, filtered as the writer does it (declared class \<^verbatim>\<open>np.float64\<close>, the labels
  for fill, maximum and minimum checked). With an empty \<^verbatim>\<open>export_nan\<close> the fill label
  is absent; with \<^verbatim>\<open>export_nan = ['fill']\<close> it is present and NaN.
\<close>

lemma filter_netcdf4_metadata_fill_nan:
  "filter_netcdf4_metadata number_cast mlt_meta (Type (CNp (NpFloat Float64))) False
     [''fill'', ''value_max'', ''value_min''] [] =
     Inr ([(''units'', Sc (SStr ''hours''))], [])"
  "filter_netcdf4_metadata number_cast mlt_meta (Type (CNp (NpFloat Float64))) False
     [''fill'', ''value_max'', ''value_min''] [''fill''] =
     Inr ([(''units'', Sc (SStr ''hours'')), (''fill'', Sc (NFloat Float64 NaN))], [])"
  by (simp_all add: filter_netcdf4_metadata_def mlt_meta_def)

text \<open>
  An array of two numbers has no truth value: the NaN test of the first loop raises
  ValueError, which only the handler of TypeError is there to catch.
\<close>

lemma filter_netcdf4_metadata_array_raises:
  "filter_netcdf4_metadata number_cast
     [(''units'', Sc (SStr ''hours'')), (''bin_edges'', Arr (FloatArr Float64 [Fin 1, Fin 2]))]
     (Type (CNp (NpFloat Float64))) False [''fill'', ''value_max'', ''value_min''] [] =
   Inl ValueError"
  by (simp add: filter_netcdf4_metadata_def)

text \<open>
  Claim C4 says that the filter never raises for a malformed value: a label in
  \<^verbatim>\<open>check_type\<close> whose value is not of the declared type and cannot be cast is dropped
  with a warning. The code catches TypeError and ValueError around the cast, and an
  infinity cast to an integer raises OverflowError. The metadata
  \<^verbatim>\<open>{units: 'hours', value_max: inf}\<close> with the declared type \<^verbatim>\<open>bool\<close> (for which \<^verbatim>\<open>int\<close>
  is used) and \<^verbatim>\<open>check_type = ['value_max']\<close> makes the filter raise OverflowError.
\<close>

theorem filter_netcdf4_metadata_overflow:
  "filter_netcdf4_metadata number_cast
     [(''units'', Sc (SStr ''hours'')), (''value_max'', Sc (SFloat PInf))]
     (Type CBool) False [''value_max''] [] = Inl OverflowError"
  by (simp add: filter_netcdf4_metadata_def)

section \<open>Properties of the translation from the file\<close>

lemma nan_check_scalars:
  "nan_check (Sc a) (Sc b) =
     Inr (is_number a \<and> is_number b \<longrightarrow> \<not> is_nan a \<and> \<not> is_nan b)"
  by (cases "is_number a"; cases "is_number b") (simp_all add: nan_check_def)

lemma kept_value_Cons:
  "kept_value t ((f, v) # items) n =
     (if translate_key t f = n then Some v else kept_value t items n)"
  by (simp add: kept_value_def)

lemma first_source_Cons:
  "first_source t ((f, v) # items) n =
     (if translate_key t f = n then Some f else first_source t items n)"
  by (simp add: first_source_def)

lemma first_source_mem:
  "first_source t items n = Some f \<Longrightarrow> f \<in> fst ` set items"
  unfolding first_source_def by (auto simp: find_Some_iff image_iff) (metis fst_conv nth_mem)

lemma translate_labels_scalars:
  assumes "distinct (map fst items)"
    and "\<forall>(k, v) \<in> set items. \<exists>s. v = Sc s"
    and "\<forall>(k, v) \<in> set filt. \<exists>s. v = Sc s"
  shows "\<exists>filt' lg'. translate_labels t items (filt, lg) = Inr (filt', lg') \<and>
           (\<forall>n. map_of filt' n =
                 (case map_of filt n of Some v \<Rightarrow> Some v | None \<Rightarrow> kept_value t items n)) \<and>
           set lg' = set lg \<union> later_warnings t filt items"
  using assms
proof (induction items arbitrary: filt lg)
  case Nil
  then show ?case by (simp add: later_warnings_def kept_value_def split: option.splits)
next
  case (Cons item items)
  obtain f v where item: "item = (f, v)" by (cases item)
  from Cons.prems item obtain b where v: "v = Sc b" by auto
  from Cons.prems item have d: "distinct (map fst items)" and nf: "f \<notin> fst ` set items"
    and sc: "\<forall>(k, v) \<in> set items. \<exists>s. v = Sc s" by auto
  let ?n = "translate_key t f"
  show ?case
  proof (cases "map_of filt ?n")
    case None
    let ?filt1 = "AList.update ?n v filt"
    have sc1: "\<forall>(k, v) \<in> set ?filt1. \<exists>s. v = Sc s"
      using Cons.prems(3) v set_update_subset[of ?n v filt] by auto
    from Cons.IH[OF d sc sc1, of lg] obtain filt' lg' where
      r: "translate_labels t items (?filt1, lg) = Inr (filt', lg')" and
      m: "\<forall>n. map_of filt' n =
                 (case map_of ?filt1 n of Some v \<Rightarrow> Some v | None \<Rightarrow> kept_value t items n)" and
      l: "set lg' = set lg \<union> later_warnings t ?filt1 items" by blast
    have r': "translate_labels t (item # items) (filt, lg) = Inr (filt', lg')"
      using None r item by (simp add: Let_def)
    have m': "\<forall>n. map_of filt' n =
                 (case map_of filt n of Some v \<Rightarrow> Some v
                  | None \<Rightarrow> kept_value t (item # items) n)"
      using m None item by (auto simp: update_conv' kept_value_Cons split: option.splits)
    have w: "later_warnings t ?filt1 items = later_warnings t filt (item # items)"
    proof -
      have "(case map_of ?filt1 (translate_key t g) of
               Some k \<Rightarrow> k = Sc a
             | None \<Rightarrow> kept_value t items (translate_key t g) = Some (Sc a) \<and>
                    first_source t items (translate_key t g) \<noteq> Some g) =
            (case map_of filt (translate_key t g) of
               Some k \<Rightarrow> k = Sc a
             | None \<Rightarrow> kept_value t (item # items) (translate_key t g) = Some (Sc a) \<and>
                    first_source t (item # items) (translate_key t g) \<noteq> Some g)"
        if "(g, Sc c) \<in> set items" for g a c
      proof -
        from that nf have "g \<noteq> f" by force
        then show ?thesis using None item v
          by (auto simp: update_conv' kept_value_Cons first_source_Cons split: option.splits)
      qed
      moreover have "\<not> (case map_of filt (translate_key t f) of
               Some k \<Rightarrow> k = Sc a
             | None \<Rightarrow> kept_value t (item # items) (translate_key t f) = Some (Sc a) \<and>
                    first_source t (item # items) (translate_key t f) \<noteq> Some f)" for a
        using None item by (simp add: first_source_Cons)
      ultimately show ?thesis
        unfolding later_warnings_def using item v by auto
    qed
    from r' m' l w show ?thesis by auto
  next
    case (Some k)
    from Some have "(?n, k) \<in> set filt" by (rule map_of_SomeD)
    with Cons.prems(3) obtain a where k: "k = Sc a" by fastforce
    let ?lg1 = "if scalars_reported a b then lg @ [Inconsistent f ?n v k] else lg"
    from Cons.IH[OF d sc Cons.prems(3), of ?lg1] obtain filt' lg' where
      r: "translate_labels t items (filt, ?lg1) = Inr (filt', lg')" and
      m: "\<forall>n. map_of filt' n =
                 (case map_of filt n of Some v \<Rightarrow> Some v | None \<Rightarrow> kept_value t items n)" and
      l: "set lg' = set ?lg1 \<union> later_warnings t filt items" by blast
    have r': "translate_labels t (item # items) (filt, lg) = Inr (filt', lg')"
      using Some r item k v
      by (cases "scalar_eq a b";
          cases "is_number a \<and> is_number b \<longrightarrow> \<not> is_nan a \<and> \<not> is_nan b")
         (auto simp: Let_def nan_check_scalars scalars_reported_def)
    have m': "\<forall>n. map_of filt' n =
                 (case map_of filt n of Some v \<Rightarrow> Some v
                  | None \<Rightarrow> kept_value t (item # items) n)"
      using m Some item by (auto simp: kept_value_Cons split: option.splits)
    have same: "(case map_of filt (translate_key t g) of
               Some k \<Rightarrow> k = Sc a'
             | None \<Rightarrow> kept_value t items (translate_key t g) = Some (Sc a') \<and>
                    first_source t items (translate_key t g) \<noteq> Some g) =
            (case map_of filt (translate_key t g) of
               Some k \<Rightarrow> k = Sc a'
             | None \<Rightarrow> kept_value t (item # items) (translate_key t g) = Some (Sc a') \<and>
                    first_source t (item # items) (translate_key t g) \<noteq> Some g)" for g a'
      using Some item
      by (cases "translate_key t g = ?n")
         (auto simp: kept_value_Cons first_source_Cons split: option.splits)
    have w: "later_warnings t filt (item # items) =
             later_warnings t filt items \<union>
               (if scalars_reported a b then {Inconsistent f ?n v k} else {})"
      unfolding later_warnings_def same[symmetric]
      using item v k Some by auto
    from r' m' l w show ?thesis by auto
  qed
qed

lemma translate_higher_order_plain:
  "''meta'' \<notin> fst ` set rec \<Longrightarrow> translate_higher_order t rec filt = Inr filt"
  by (simp add: translate_higher_order_def map_of_eq_None_iff[THEN iffD2])

lemma later_warnings_start:
  "later_warnings t [] rec =
     {Inconsistent f (translate_key t f) (Sc b) (Sc a) | f a b.
        (f, Sc b) \<in> set rec \<and> kept_value t rec (translate_key t f) = Some (Sc a) \<and>
        first_source t rec (translate_key t f) \<noteq> Some f \<and> scalars_reported a b}"
  by (simp add: later_warnings_def)

lemma from_file_plain:
  assumes "\<forall>(var, rec) \<in> set md. plain_record rec"
  shows "\<exists>fd lg. apply_table_translation_from_file t md = Inr (fd, lg) \<and>
           length fd = length md \<and>
           (\<forall>i < length md. fst (fd ! i) = fst (md ! i) \<and>
               (\<forall>n. map_of (snd (fd ! i)) n = kept_value t (snd (md ! i)) n)) \<and>
           set lg = (\<Union>(var, rec) \<in> set md.
                       later_warnings t [] rec \<union> set (missing_labels t var rec))"
  using assms
proof (induction md)
  case Nil
  then show ?case by simp
next
  case (Cons e md)
  obtain var rec where e: "e = (var, rec)" by (cases e)
  from Cons.prems e have p: "plain_record rec"
    and rest: "\<forall>(var, rec) \<in> set md. plain_record rec" by auto
  from p have d: "distinct (map fst rec)" and nm: "''meta'' \<notin> fst ` set rec"
    and sc: "\<forall>(k, v) \<in> set rec. \<exists>s. v = Sc s" by (auto simp: plain_record_def)
  have sc0: "\<forall>(k, v) \<in> set ([] :: meta_record). \<exists>s. v = Sc s" by simp
  from translate_labels_scalars[OF d sc sc0, of t "[]"] obtain filt w where
    tl: "translate_labels t rec ([], []) = Inr (filt, w)" and
    m: "\<forall>n. map_of filt n = kept_value t rec n" and
    l: "set w = later_warnings t [] rec" by auto
  from Cons.IH[OF rest] obtain fd lg where
    r: "apply_table_translation_from_file t md = Inr (fd, lg)" and
    len: "length fd = length md" and
    pt: "\<forall>i < length md. fst (fd ! i) = fst (md ! i) \<and>
               (\<forall>n. map_of (snd (fd ! i)) n = kept_value t (snd (md ! i)) n)" and
    lg: "set lg = (\<Union>(var, rec) \<in> set md.
                       later_warnings t [] rec \<union> set (missing_labels t var rec))" by blast
  have res: "apply_table_translation_from_file t (e # md) =
        Inr ((var, filt) # fd, w @ missing_labels t var rec @ lg)"
    using e tl r translate_higher_order_plain[OF nm] by simp
  have pt': "\<forall>i < length (e # md). fst (((var, filt) # fd) ! i) = fst ((e # md) ! i) \<and>
               (\<forall>n. map_of (snd (((var, filt) # fd) ! i)) n = kept_value t (snd ((e # md) ! i)) n)"
  proof (intro allI impI)
    fix i assume "i < length (e # md)"
    then show "fst (((var, filt) # fd) ! i) = fst ((e # md) ! i) \<and>
               (\<forall>n. map_of (snd (((var, filt) # fd) ! i)) n = kept_value t (snd ((e # md) ! i)) n)"
      using e m pt by (cases i) auto
  qed
  have lg': "set (w @ missing_labels t var rec @ lg) =
      (\<Union>(var, rec) \<in> set (e # md). later_warnings t [] rec \<union> set (missing_labels t var rec))"
    using l lg e by auto
  from res len pt' lg' show ?case by auto
qed

text \<open>
  Claim C6, as the code has it, for file metadata whose records have distinct labels,
  scalar values and no nested set. The translation returns; each variable is kept and each
  translated label holds the value of the first file label of the record that translates
  to it; and a warning is logged exactly for a file label that is not the first to reach
  its translated label and whose value differs from the value kept, unless both values
  are numbers and one of them is NaN. The warning names that later file label, the
  translated label, the later value and the value kept.
\<close>

theorem apply_table_translation_from_file_first_seen:
  assumes "\<forall>(var, rec) \<in> set md. plain_record rec"
  shows "\<exists>fd lg. apply_table_translation_from_file t md = Inr (fd, lg) \<and>
           length fd = length md \<and>
           (\<forall>i < length md. fst (fd ! i) = fst (md ! i) \<and>
               (\<forall>n. map_of (snd (fd ! i)) n = kept_value t (snd (md ! i)) n)) \<and>
           (\<forall>f n new kept. Inconsistent f n new kept \<in> set lg \<longleftrightarrow>
               (\<exists>var rec a b. (var, rec) \<in> set md \<and> (f, Sc b) \<in> set rec \<and>
                    new = Sc b \<and> kept = Sc a \<and> n = translate_key t f \<and>
                    first_source t rec n \<noteq> Some f \<and> kept_value t rec n = Some (Sc a) \<and>
                    scalars_reported a b))"
proof -
  from from_file_plain[OF assms, of t] obtain fd lg where
    r: "apply_table_translation_from_file t md = Inr (fd, lg)" and
    len: "length fd = length md" and
    pt: "\<forall>i < length md. fst (fd ! i) = fst (md ! i) \<and>
               (\<forall>n. map_of (snd (fd ! i)) n = kept_value t (snd (md ! i)) n)" and
    lg: "set lg = (\<Union>(var, rec) \<in> set md.
                       later_warnings t [] rec \<union> set (missing_labels t var rec))" by blast
  have w: "Inconsistent f n new kept \<in> set lg \<longleftrightarrow>
               (\<exists>var rec a b. (var, rec) \<in> set md \<and> (f, Sc b) \<in> set rec \<and>
                    new = Sc b \<and> kept = Sc a \<and> n = translate_key t f \<and>
                    first_source t rec n \<noteq> Some f \<and> kept_value t rec n = Some (Sc a) \<and>
                    scalars_reported a b)" for f n new kept
  proof
    assume "Inconsistent f n new kept \<in> set lg"
    then obtain var rec where mem: "(var, rec) \<in> set md"
      and "Inconsistent f n new kept \<in> later_warnings t [] rec \<union> set (missing_labels t var rec)"
      unfolding lg by auto
    then have "Inconsistent f n new kept \<in> later_warnings t [] rec"
      by (auto simp: missing_labels_def)
    then show "\<exists>var rec a b. (var, rec) \<in> set md \<and> (f, Sc b) \<in> set rec \<and>
                    new = Sc b \<and> kept = Sc a \<and> n = translate_key t f \<and>
                    first_source t rec n \<noteq> Some f \<and> kept_value t rec n = Some (Sc a) \<and>
                    scalars_reported a b"
      using mem unfolding later_warnings_start by blast
  next
    assume "\<exists>var rec a b. (var, rec) \<in> set md \<and> (f, Sc b) \<in> set rec \<and>
                    new = Sc b \<and> kept = Sc a \<and> n = translate_key t f \<and>
                    first_source t rec n \<noteq> Some f \<and> kept_value t rec n = Some (Sc a) \<and>
                    scalars_reported a b"
    then obtain var rec a b where mem: "(var, rec) \<in> set md" and
      c: "(f, Sc b) \<in> set rec" "new = Sc b" "kept = Sc a" "n = translate_key t f"
         "first_source t rec n \<noteq> Some f" "kept_value t rec n = Some (Sc a)"
         "scalars_reported a b" by blast
    from c have "Inconsistent f n new kept \<in> later_warnings t [] rec"
      unfolding later_warnings_start by blast
    with mem show "Inconsistent f n new kept \<in> set lg" unfolding lg by blast
  qed
  from r len pt w show ?thesis by blast
qed

theorem apply_table_translation_from_file_first_seen_witness:
  "\<exists>fd lg. apply_table_translation_from_file
             (default_from_netcdf_translation_table default_labels)
             [(''mlt'', [(''units'', Sc (SStr ''hours'')), (''_FillValue'', Sc (SInt 1)),
                         (''FillVal'', Sc (SInt 2))])] = Inr (fd, lg) \<and>
           map_of (snd (fd ! 0)) ''fill'' = Some (Sc (SInt 1)) \<and>
           Inconsistent ''FillVal'' ''fill'' (Sc (SInt 2)) (Sc (SInt 1)) \<in> set lg"
proof -
  let ?t = "default_from_netcdf_translation_table default_labels"
  let ?rec = "[(''units'', Sc (SStr ''hours'')), (''_FillValue'', Sc (SInt 1)),
               (''FillVal'', Sc (SInt 2))]"
  let ?md = "[(''mlt'', ?rec)]"
  have p: "\<forall>(var, rec) \<in> set ?md. plain_record rec"
    by (simp add: plain_record_def)
  from apply_table_translation_from_file_first_seen[OF p, of ?t] obtain fd lg where
    r: "apply_table_translation_from_file ?t ?md = Inr (fd, lg)" and
    pt: "\<forall>i < length ?md. fst (fd ! i) = fst (?md ! i) \<and>
               (\<forall>n. map_of (snd (fd ! i)) n = kept_value ?t (snd (?md ! i)) n)" and
    w: "\<forall>f n new kept. Inconsistent f n new kept \<in> set lg \<longleftrightarrow>
               (\<exists>var rec a b. (var, rec) \<in> set ?md \<and> (f, Sc b) \<in> set rec \<and>
                    new = Sc b \<and> kept = Sc a \<and> n = translate_key ?t f \<and>
                    first_source ?t rec n \<noteq> Some f \<and> kept_value ?t rec n = Some (Sc a) \<and>
                    scalars_reported a b)" by blast
  from pt have "map_of (snd (fd ! 0)) ''fill'' = kept_value ?t ?rec ''fill''" by simp
  then have a: "map_of (snd (fd ! 0)) ''fill'' = Some (Sc (SInt 1))"
    by (simp add: kept_value_def translate_key_def default_from_netcdf_translation_table_def
        default_labels_def)
  have "(''mlt'', ?rec) \<in> set ?md \<and> (''FillVal'', Sc (SInt 2)) \<in> set ?rec \<and>
        Sc (SInt 2) = Sc (SInt 2) \<and> Sc (SInt 1) = Sc (SInt 1) \<and>
        ''fill'' = translate_key ?t ''FillVal'' \<and>
        first_source ?t ?rec ''fill'' \<noteq> Some ''FillVal'' \<and>
        kept_value ?t ?rec ''fill'' = Some (Sc (SInt 1)) \<and>
        scalars_reported (SInt 1) (SInt 2)"
    by (simp add: kept_value_def first_source_def translate_key_def
        default_from_netcdf_translation_table_def default_labels_def scalars_reported_def
        scalar_eq_def)
  then have "\<exists>var rec a b. (var, rec) \<in> set ?md \<and> (''FillVal'', Sc b) \<in> set rec \<and>
                    Sc (SInt 2) = Sc b \<and> Sc (SInt 1) = Sc a \<and>
                    ''fill'' = translate_key ?t ''FillVal'' \<and>
                    first_source ?t rec ''fill'' \<noteq> Some ''FillVal'' \<and>
                    kept_value ?t rec ''fill'' = Some (Sc a) \<and>
                    scalars_reported a b" by blast
  with w have b: "Inconsistent ''FillVal'' ''fill'' (Sc (SInt 2)) (Sc (SInt 1)) \<in> set lg"
    by blast
  from r a b show ?thesis by blast
qed

theorem apply_table_translation_from_file_message_counterexample:
  "apply_table_translation_from_file (default_from_netcdf_translation_table default_labels)
     [(''mlt'', [(''_FillValue'', Sc (SFloat NaN)), (''FillVal'', Sc (SStr ''none''))])] =
   Inr ([(''mlt'', [(''fill'', Sc (SFloat NaN))])],
        [Inconsistent ''FillVal'' ''fill'' (Sc (SStr ''none'')) (Sc (SFloat NaN)),
         NotFound ''fill'' ''mlt''])"
  by (simp add: default_from_netcdf_translation_table_def default_labels_def translate_key_def
      scalar_eq_def nan_check_def missing_labels_def translate_higher_order_def Let_def)

end
